theory Spec2Isabelle
  imports Complex_Main "HOL-Library.Word"
begin

section \<open>Go integers\<close>

text \<open>
  Go's \<open>int64\<close> (and \<open>int\<close> on the 64-bit targets the resource is built for) is modelled
  as an \<open>int\<close> kept in range by \<open>int64\<close>, which wraps like two's complement.  Division
  truncates towards zero, unlike \<open>div\<close> of HOL; a zero divisor is a run-time panic and is
  checked by the caller of \<open>goQuo\<close> and \<open>goRem\<close>.
\<close>

definition int64 :: "int \<Rightarrow> int" where
  "int64 x = (x + 2 ^ 63) mod 2 ^ 64 - 2 ^ 63"

definition inInt64 :: "int \<Rightarrow> bool" where
  "inInt64 x = (- (2 ^ 63) \<le> x \<and> x < 2 ^ 63)"

definition goQuo :: "int \<Rightarrow> int \<Rightarrow> int" where
  "goQuo a b = int64 (sgn a * sgn b * (\<bar>a\<bar> div \<bar>b\<bar>))"

definition goRem :: "int \<Rightarrow> int \<Rightarrow> int" where
  "goRem a b = sgn a * (\<bar>a\<bar> mod \<bar>b\<bar>)"

definition goShl :: "int \<Rightarrow> nat \<Rightarrow> int" where
  "goShl a k = int64 (a * 2 ^ k)"

definition goShr :: "int \<Rightarrow> nat \<Rightarrow> int" where
  "goShr a k = a div 2 ^ k"

fun natDigits :: "nat \<Rightarrow> string" where
  "natDigits n =
     (if n < 10 then [''0123456789'' ! n]
      else natDigits (n div 10) @ [''0123456789'' ! (n mod 10)])"

declare natDigits.simps [simp del]

definition itoa :: "int \<Rightarrow> string" where
  "itoa i = (if i < 0 then CHR ''-'' # natDigits (nat (- i)) else natDigits (nat i))"

section \<open>The collaborators: object store, file system, scheduler\<close>

text \<open>
  The client (type \<open>gcsclient\<close> of package \<open>gcsresource\<close>) talks to the storage service,
  to the local file system and, in the multi-part upload, to the Go scheduler.  A \<open>world\<close> fixes what each of them answers:
  \<^item> \<open>bucketsGet\<close>: \<open>Buckets.Get(bucket).Do()\<close>, an error or the bucket's \<open>Versioning\<close>
    (\<open>None\<close> is the nil pointer, \<open>Some enabled\<close> otherwise);
  \<^item> \<open>osStat\<close>, \<open>osOpen\<close>, \<open>osCreate\<close>, \<open>ioCopy\<close>: the calls of packages \<open>os\<close> and \<open>io\<close>;
    \<open>osOpen path k\<close> is the \<open>k\<close>-th \<open>os.Open\<close> of one upload, an error or a handle on the
    contents, positioned at byte 0;
  \<^item> \<open>insertDo\<close>, \<open>composeDo\<close>, \<open>deleteDo\<close>, \<open>listDo\<close>, \<open>getDo\<close>, \<open>downloadDo\<close>: the \<open>Do()\<close>
    (or \<open>Download()\<close>) of the request built by the code; \<open>insertDo\<close> answers with the
    generation of the uploaded object;
  \<^item> \<open>arrival\<close>: the order in which the chunk goroutines get to send on \<open>errChannel\<close>,
    as the list of their chunk indices.
  Every call the code makes is recorded as an \<open>event\<close>, in program order, \<open>Stderr\<close> being a
  line printed with \<open>fmt.Fprintf(os.Stderr, ...)\<close>.  The progress bar only decorates
  the readers and is left out.  A \<open>fault\<close> is a run-time panic of Go (an integer division
  by zero) or a receive that no sender will ever serve.
\<close>

datatype err = Err string

datatype fault = DivideByZero | Deadlock

type_synonym byte = "8 word"

record insertCall =
  icBucket :: string
  icName :: string
  icContentType :: string
  icMedia :: "byte list"
  icMediaOptions :: "string list"
  icPredefinedAcl :: "string option"

record objectsPage =
  pageItems :: "(string \<times> int) list"
  nextPageToken :: string

datatype logline =
    WarnThreadCap int
  | LogParallel bool int
  | LogCompose
  | LogCleanup
  | WarnDelete string err

datatype event =
    BucketsGet string
  | Stat string
  | Open string
  | Go insertCall
  | Recv "err option"
  | InsertDo insertCall
  | ComposeDo string string "string list"
  | DeleteDo string string
  | Stderr logline
  | ListDo string string string bool
  | GetDo string string "int option"
  | Create string
  | Download string string "int option"
  | Copy "byte list"

record world =
  bucketsGet :: "string \<Rightarrow> err + bool option"
  osStat :: "string \<Rightarrow> err + int"
  osOpen :: "string \<Rightarrow> nat \<Rightarrow> err + byte list"
  insertDo :: "insertCall \<Rightarrow> err + int"
  arrival :: "nat list"
  composeDo :: "string \<Rightarrow> string \<Rightarrow> string list \<Rightarrow> err option"
  deleteDo :: "string \<Rightarrow> string \<Rightarrow> err option"
  listDo :: "string \<Rightarrow> string \<Rightarrow> string \<Rightarrow> bool \<Rightarrow> err + objectsPage"
  getDo :: "string \<Rightarrow> string \<Rightarrow> int option \<Rightarrow> err + int"
  osCreate :: "string \<Rightarrow> err option"
  downloadDo :: "string \<Rightarrow> string \<Rightarrow> int option \<Rightarrow> err + byte list"
  ioCopy :: "byte list \<Rightarrow> err option"

section \<open>gcsclient: versioning, generations and download\<close>

text \<open>
  \<open>getBucketVersioning\<close>, \<open>getObjectGenerations\<close> (the paging loop \<open>for { ... }\<close>, which
  ends when the service returns an empty \<open>NextPageToken\<close> and may otherwise go on forever),
  \<open>ObjectGenerations\<close> and \<open>DownloadFile\<close>.  A result is Go's pair of value and error.
\<close>

definition getBucketVersioning :: "world \<Rightarrow> string \<Rightarrow> err + bool" where
  "getBucketVersioning w bucketName =
     (case bucketsGet w bucketName of
        Inl e \<Rightarrow> Inl e
      | Inr (Some enabled) \<Rightarrow> Inr enabled
      | Inr None \<Rightarrow> Inr False)"

partial_function (option) getObjectGenerationsFrom ::
  "world \<Rightarrow> string \<Rightarrow> string \<Rightarrow> string \<Rightarrow> int list \<Rightarrow> event list
     \<Rightarrow> ((int list \<times> err option) \<times> event list) option" where
  "getObjectGenerationsFrom w bucketName objectPath pageToken objectGenerations tr =
     (case listDo w bucketName pageToken objectPath True of
        Inl e \<Rightarrow> Some ((objectGenerations, Some e), tr @ [ListDo bucketName pageToken objectPath True])
      | Inr objects \<Rightarrow>
          if nextPageToken objects \<noteq> []
          then getObjectGenerationsFrom w bucketName objectPath (nextPageToken objects)
                 (objectGenerations @ map snd (filter (\<lambda>object. fst object = objectPath) (pageItems objects)))
                 (tr @ [ListDo bucketName pageToken objectPath True])
          else Some ((objectGenerations @ map snd (filter (\<lambda>object. fst object = objectPath) (pageItems objects)), None),
                     tr @ [ListDo bucketName pageToken objectPath True]))"

declare getObjectGenerationsFrom.simps [code]

definition getObjectGenerations ::
  "world \<Rightarrow> string \<Rightarrow> string \<Rightarrow> ((int list \<times> err option) \<times> event list) option" where
  "getObjectGenerations w bucketName objectPath =
     getObjectGenerationsFrom w bucketName objectPath [] [] []"

definition ObjectGenerations ::
  "world \<Rightarrow> string \<Rightarrow> string \<Rightarrow> ((int list \<times> err option) \<times> event list) option" where
  "ObjectGenerations w bucketName objectPath =
     (case getBucketVersioning w bucketName of
        Inl e \<Rightarrow> Some (([], Some e), [BucketsGet bucketName])
      | Inr isBucketVersioned \<Rightarrow>
          if \<not> isBucketVersioned
          then Some (([], Some (Err ''bucket is not versioned'')), [BucketsGet bucketName])
          else (case getObjectGenerations w bucketName objectPath of
                  None \<Rightarrow> None
                | Some ((objectGenerations, Some e), tr) \<Rightarrow> Some (([], Some e), BucketsGet bucketName # tr)
                | Some ((objectGenerations, None), tr) \<Rightarrow>
                    Some ((objectGenerations, None), BucketsGet bucketName # tr)))"

definition DownloadFile ::
  "world \<Rightarrow> string \<Rightarrow> string \<Rightarrow> int \<Rightarrow> string \<Rightarrow> err option \<times> event list" where
  "DownloadFile w bucketName objectPath generation localPath =
     (case getBucketVersioning w bucketName of
        Inl e \<Rightarrow> (Some e, [BucketsGet bucketName])
      | Inr isBucketVersioned \<Rightarrow>
          if \<not> isBucketVersioned \<and> generation \<noteq> 0
          then (Some (Err ''bucket is not versioned''), [BucketsGet bucketName])
          else
            let getCall = (if generation \<noteq> 0 then Some generation else None);
                tr1 = [BucketsGet bucketName, GetDo bucketName objectPath getCall]
            in case getDo w bucketName objectPath getCall of
                 Inl e \<Rightarrow> (Some e, tr1)
               | Inr objectSize \<Rightarrow>
                   (case osCreate w localPath of
                      Some e \<Rightarrow> (Some e, tr1 @ [Create localPath])
                    | None \<Rightarrow>
                        (case downloadDo w bucketName objectPath getCall of
                           Inl e \<Rightarrow>
                             (Some e, tr1 @ [Create localPath, Download bucketName objectPath getCall])
                         | Inr body \<Rightarrow>
                             (ioCopy w body,
                              tr1 @ [Create localPath, Download bucketName objectPath getCall, Copy body]))))"

section \<open>gcsclient: planning and running an upload\<close>

text \<open>
  \<open>plannedThreads\<close> is the first statement group of \<open>planParallelUpload\<close> (the quotient,
  incremented when the remainder is not zero); \<open>planParallelUpload\<close> adds the cap of 32
  and the warning.  Go panics on a zero divisor before anything else happens.
\<close>

definition plannedThreads :: "int \<Rightarrow> int \<Rightarrow> int" where
  "plannedThreads fileSize trunkSize =
     (let threads = goQuo fileSize trunkSize
      in if goRem fileSize trunkSize \<noteq> 0 then int64 (threads + 1) else threads)"

definition planParallelUpload :: "int \<Rightarrow> int \<Rightarrow> fault + ((int \<times> int) \<times> logline list)" where
  "planParallelUpload fileSize trunkSize =
     (if trunkSize = 0 then Inl DivideByZero
      else
        let threads = plannedThreads fileSize trunkSize
        in if threads > 32
           then Inr ((32, goQuo fileSize 32), [WarnThreadCap (goShr (goQuo fileSize 32) 20)])
           else Inr ((threads, trunkSize), []))"

text \<open>
  The multi-part branch of \<open>UploadFile\<close> (\<open>if parallelMode { ... }\<close>).  \<open>fanOut\<close> is the
  first loop: per chunk it opens the file, seeks to \<open>trunkSize * i\<close> (the result of
  \<open>Seek\<close> is ignored), bounds every reader but the last with \<open>io.LimitReader\<close>, and starts
  a goroutine that runs the insert and sends its error.  \<open>joinLoop\<close> is the second loop,
  receiving from \<open>errChannel\<close> and returning at the first error that is not nil.
  \<open>cleanup\<close> is the third loop.  \<open>parallelUpload\<close> puts them in sequence with the compose
  request; \<open>singleUpload\<close> is the \<open>else\<close> branch.
\<close>

definition partName :: "string \<Rightarrow> nat \<Rightarrow> string" where
  "partName objectPath i = objectPath @ ''.part'' @ itoa (int i)"

definition seekStart :: "byte list \<Rightarrow> int \<Rightarrow> byte list" where
  "seekStart localFile offset = (if offset < 0 then localFile else drop (nat offset) localFile)"

definition limitReader :: "byte list \<Rightarrow> int \<Rightarrow> byte list" where
  "limitReader r n = take (nat n) r"

definition chunkReader :: "int \<Rightarrow> int \<Rightarrow> nat \<Rightarrow> byte list \<Rightarrow> byte list" where
  "chunkReader threads trunkSize i localFile =
     (if int i = threads - 1
      then seekStart localFile (int64 (trunkSize * int i))
      else limitReader (seekStart localFile (int64 (trunkSize * int i))) trunkSize)"

definition mediaOptionsFor :: "string \<Rightarrow> string list" where
  "mediaOptionsFor objectContentType = (if objectContentType \<noteq> [] then [objectContentType] else [])"

definition aclFor :: "string \<Rightarrow> string option" where
  "aclFor predefinedACL = (if predefinedACL \<noteq> [] then Some predefinedACL else None)"

definition chunkInsert ::
  "string \<Rightarrow> string \<Rightarrow> string \<Rightarrow> string \<Rightarrow> int \<Rightarrow> int \<Rightarrow> nat \<Rightarrow> byte list \<Rightarrow> insertCall" where
  "chunkInsert bucketName objectPath objectContentType predefinedACL threads trunkSize i localFile =
     \<lparr>icBucket = bucketName, icName = partName objectPath i, icContentType = objectContentType,
      icMedia = chunkReader threads trunkSize i localFile,
      icMediaOptions = mediaOptionsFor objectContentType, icPredefinedAcl = aclFor predefinedACL\<rparr>"

fun fanOut ::
  "world \<Rightarrow> string \<Rightarrow> (nat \<Rightarrow> byte list \<Rightarrow> insertCall) \<Rightarrow> nat list \<Rightarrow> (err + insertCall list) \<times> event list" where
  "fanOut w localPath mk [] = (Inr [], [])"
| "fanOut w localPath mk (i # idx) =
     (case osOpen w localPath i of
        Inl e \<Rightarrow> (Inl e, [Open localPath])
      | Inr localFile \<Rightarrow>
          (case fanOut w localPath mk idx of
             (Inl e, tr) \<Rightarrow> (Inl e, Open localPath # Go (mk i localFile) # tr)
           | (Inr calls, tr) \<Rightarrow> (Inr (mk i localFile # calls), Open localPath # Go (mk i localFile) # tr)))"

definition workerErr :: "world \<Rightarrow> insertCall \<Rightarrow> err option" where
  "workerErr w call = (case insertDo w call of Inl e \<Rightarrow> Some e | Inr generation \<Rightarrow> None)"

definition errChannel :: "world \<Rightarrow> insertCall list \<Rightarrow> err option list" where
  "errChannel w calls =
     map (\<lambda>k. workerErr w (calls ! k)) (filter (\<lambda>k. k < length calls) (arrival w))"

fun joinLoop :: "nat \<Rightarrow> err option list \<Rightarrow> (fault + err option) \<times> event list" where
  "joinLoop 0 ch = (Inr None, [])"
| "joinLoop (Suc n) [] = (Inl Deadlock, [])"
| "joinLoop (Suc n) (Some e # ch) = (Inr (Some e), [Recv (Some e)])"
| "joinLoop (Suc n) (None # ch) = (case joinLoop n ch of (r, tr) \<Rightarrow> (r, Recv None # tr))"

fun cleanup :: "world \<Rightarrow> string \<Rightarrow> string \<Rightarrow> nat list \<Rightarrow> event list" where
  "cleanup w bucketName objectPath [] = []"
| "cleanup w bucketName objectPath (i # idx) =
     DeleteDo bucketName (partName objectPath i)
       # (case deleteDo w bucketName (partName objectPath i) of
            Some e \<Rightarrow> [Stderr (WarnDelete (partName objectPath i) e)]
          | None \<Rightarrow> [])
       @ cleanup w bucketName objectPath idx"

definition parallelUpload ::
  "world \<Rightarrow> string \<Rightarrow> string \<Rightarrow> string \<Rightarrow> string \<Rightarrow> string \<Rightarrow> int \<Rightarrow> int
     \<Rightarrow> (fault + int \<times> err option) \<times> event list" where
  "parallelUpload w bucketName objectPath objectContentType localPath predefinedACL threads trunkSize =
     (let idx = [0..<nat threads];
          sourceObjects = map (partName objectPath) idx
      in case fanOut w localPath
                (chunkInsert bucketName objectPath objectContentType predefinedACL threads trunkSize) idx of
           (Inl e, tr) \<Rightarrow> (Inr (0, Some e), tr)
         | (Inr calls, tr) \<Rightarrow>
             (case joinLoop (nat threads) (errChannel w calls) of
                (Inl f, tr2) \<Rightarrow> (Inl f, tr @ tr2)
              | (Inr (Some e), tr2) \<Rightarrow> (Inr (0, Some e), tr @ tr2)
              | (Inr None, tr2) \<Rightarrow>
                  (case composeDo w bucketName objectPath sourceObjects of
                     Some e \<Rightarrow>
                       (Inr (0, Some e),
                        tr @ tr2 @ [Stderr LogCompose, ComposeDo bucketName objectPath sourceObjects])
                   | None \<Rightarrow>
                       (Inr (0, None),
                        tr @ tr2 @ [Stderr LogCompose, ComposeDo bucketName objectPath sourceObjects]
                          @ Stderr LogCleanup # cleanup w bucketName objectPath idx))))"

definition singleUpload ::
  "world \<Rightarrow> string \<Rightarrow> string \<Rightarrow> string \<Rightarrow> string \<Rightarrow> string \<Rightarrow> bool
     \<Rightarrow> (fault + int \<times> err option) \<times> event list" where
  "singleUpload w bucketName objectPath objectContentType localPath predefinedACL isBucketVersioned =
     (case osOpen w localPath 0 of
        Inl e \<Rightarrow> (Inr (0, Some e), [Open localPath])
      | Inr localFile \<Rightarrow>
          let insertCall = \<lparr>icBucket = bucketName, icName = objectPath, icContentType = objectContentType,
                icMedia = localFile, icMediaOptions = mediaOptionsFor objectContentType,
                icPredefinedAcl = aclFor predefinedACL\<rparr>
          in case insertDo w insertCall of
               Inl e \<Rightarrow> (Inr (0, Some e), [Open localPath, InsertDo insertCall])
             | Inr generation \<Rightarrow>
                 (Inr (if isBucketVersioned then generation else 0, None),
                  [Open localPath, InsertDo insertCall]))"

definition UploadFile ::
  "world \<Rightarrow> string \<Rightarrow> string \<Rightarrow> string \<Rightarrow> string \<Rightarrow> string \<Rightarrow> int
     \<Rightarrow> (fault + int \<times> err option) \<times> event list" where
  "UploadFile w bucketName objectPath objectContentType localPath predefinedACL parallelUploadThreshold =
     (case getBucketVersioning w bucketName of
        Inl e \<Rightarrow> (Inr (0, Some e), [BucketsGet bucketName])
      | Inr isBucketVersioned \<Rightarrow>
          (case osStat w localPath of
             Inl e \<Rightarrow> (Inr (0, Some e), [BucketsGet bucketName, Stat localPath])
           | Inr fileSize \<Rightarrow>
               (case (if parallelUploadThreshold > 0
                      then planParallelUpload fileSize (goShl parallelUploadThreshold 20)
                      else Inr ((1, goShl parallelUploadThreshold 20), [])) of
                  Inl f \<Rightarrow> (Inl f, [BucketsGet bucketName, Stat localPath])
                | Inr ((threads, trunkSize), warn) \<Rightarrow>
                    (case (if threads > 1
                           then parallelUpload w bucketName objectPath objectContentType localPath
                                  predefinedACL threads trunkSize
                           else singleUpload w bucketName objectPath objectContentType localPath
                                  predefinedACL isBucketVersioned) of
                       (r, tr) \<Rightarrow>
                         (r, [BucketsGet bucketName, Stat localPath] @ map Stderr warn
                               @ (if parallelUploadThreshold > 0
                                  then [Stderr (LogParallel False threads)] else [])
                               @ tr)))))"

section \<open>Version resolution\<close>

text \<open>
  \<open>pathToDownload\<close> is in the sources (type \<open>InCommand\<close> of package \<open>in\<close>); the package \<open>versions\<close>
  it calls (\<open>Extract\<close>, \<open>GetBucketObjectVersions\<close> and the order on versions) is not, and
  is modelled from sections 3, 4.1 and 4.2 of the specification.  A pattern is
  represented by what it does to an object key: \<open>None\<close> when it does not match, the text
  of its capturing group when it does.  The specification does not say how a digit run
  compares with a non-digit run at the same position; the order takes that choice as the
  parameter \<open>digitsFirst\<close>, and nothing below depends on it.
\<close>

text \<open>
  Modelled from the spec: package \<open>versions\<close> is missing; a run of a version token (section 3), either a
  run of digits, read as an unsigned integer of any size, or a run of other characters.
\<close>

datatype segment = Digits nat | Text string

text \<open>
  Modelled from the spec: package \<open>versions\<close> is missing; the digit characters (section 4.1).
\<close>

definition isDigit :: "char \<Rightarrow> bool" where
  "isDigit c = (c \<in> set ''0123456789'')"

text \<open>
  Modelled from the spec: package \<open>versions\<close> is missing; the value of a digit run as an unsigned integer of
  arbitrary precision (section 4.1).
\<close>

definition digitsValue :: "string \<Rightarrow> nat" where
  "digitsValue ds = foldl (\<lambda>n c. 10 * n + (of_char c - 48)) 0 ds"

text \<open>
  Modelled from the spec: package \<open>versions\<close> is missing; the split of a token into alternating maximal
  runs of digits and of other characters, in order (section 4.1).
\<close>

function segments :: "string \<Rightarrow> segment list" where
  "segments [] = []"
| "segments (c # cs) =
     (if isDigit c
      then Digits (digitsValue (c # takeWhile isDigit cs)) # segments (dropWhile isDigit cs)
      else Text (c # takeWhile (\<lambda>d. \<not> isDigit d) cs) # segments (dropWhile (\<lambda>d. \<not> isDigit d) cs))"
  by pat_completeness auto
termination
  by (relation "measure length") (auto simp add: length_dropWhile_le less_Suc_eq_le)

text \<open>
  Modelled from the spec: package \<open>versions\<close> is missing; comparison pairwise from left to right, the
  list that runs out first sorting first (section 4.1).  The result is negative, zero or
  positive.
\<close>

fun lexCompare :: "('a \<Rightarrow> 'a \<Rightarrow> int) \<Rightarrow> 'a list \<Rightarrow> 'a list \<Rightarrow> int" where
  "lexCompare cmp [] [] = 0"
| "lexCompare cmp [] (y # ys) = - 1"
| "lexCompare cmp (x # xs) [] = 1"
| "lexCompare cmp (x # xs) (y # ys) = (if cmp x y \<noteq> 0 then cmp x y else lexCompare cmp xs ys)"

text \<open>
  Modelled from the spec: package \<open>versions\<close> is missing; digit runs compare as unsigned integers
  (section 4.1).
\<close>

definition compareNat :: "nat \<Rightarrow> nat \<Rightarrow> int" where
  "compareNat m n = (if m < n then - 1 else if n < m then 1 else 0)"

text \<open>
  Modelled from the spec: package \<open>versions\<close> is missing; characters compare by code point (section 4.1).
\<close>

definition compareChar :: "char \<Rightarrow> char \<Rightarrow> int" where
  "compareChar a b = compareNat (of_char a) (of_char b)"

text \<open>
  Modelled from the spec: package \<open>versions\<close> is missing; digit run against digit run as integers, other
  runs lexicographically by code point (section 4.1); a digit run against another run as
  \<open>digitsFirst\<close> says.
\<close>

fun compareSegment :: "bool \<Rightarrow> segment \<Rightarrow> segment \<Rightarrow> int" where
  "compareSegment digitsFirst (Digits m) (Digits n) = compareNat m n"
| "compareSegment digitsFirst (Text s) (Text t) = lexCompare compareChar s t"
| "compareSegment digitsFirst (Digits m) (Text t) = (if digitsFirst then - 1 else 1)"
| "compareSegment digitsFirst (Text s) (Digits n) = (if digitsFirst then 1 else - 1)"

text \<open>
  Modelled from the spec: package \<open>versions\<close> is missing; the order on version tokens (section 4.1).
\<close>

definition compareVersions :: "bool \<Rightarrow> string \<Rightarrow> string \<Rightarrow> int" where
  "compareVersions digitsFirst a b = lexCompare (compareSegment digitsFirst) (segments a) (segments b)"

text \<open>
  Modelled from the spec: package \<open>versions\<close> is missing; the pairing of an object key with the version
  token extracted from it (section 3), with the field names its callers use.
\<close>

record extraction =
  Path :: string
  VersionNumber :: string

text \<open>
  Modelled from the spec: package \<open>versions\<close> is missing; \<open>extract(objectKey, pattern)\<close> of section 4.1, not
  found when the pattern does not match.
\<close>

definition Extract :: "(string \<Rightarrow> string option) \<Rightarrow> string \<Rightarrow> extraction option" where
  "Extract pattern path =
     (case pattern path of
        None \<Rightarrow> None
      | Some match \<Rightarrow> Some \<lparr>Path = path, VersionNumber = match\<rparr>)"

text \<open>
  Modelled from the spec: package \<open>versions\<close> is missing; the ordered results of section 2, by insertion
  into a list kept in ascending order of version.
\<close>

fun insertExtraction :: "bool \<Rightarrow> extraction \<Rightarrow> extraction list \<Rightarrow> extraction list" where
  "insertExtraction digitsFirst e [] = [e]"
| "insertExtraction digitsFirst e (x # xs) =
     (if compareVersions digitsFirst (VersionNumber e) (VersionNumber x) \<le> 0 then e # x # xs
      else x # insertExtraction digitsFirst e xs)"

text \<open>
  Modelled from the spec: package \<open>versions\<close> is missing; the extractions in ascending order of version
  (section 2).
\<close>

definition sortExtractions :: "bool \<Rightarrow> extraction list \<Rightarrow> extraction list" where
  "sortExtractions digitsFirst es = foldr (insertExtraction digitsFirst) es []"

text \<open>
  Modelled from the spec: package \<open>versions\<close> is missing; the extractions of the listed object keys that
  match the pattern, in ascending order of version (sections 2 and 4.2).  The listing is
  the result of \<open>BucketObjects\<close> of the client.
\<close>

definition GetBucketObjectVersions ::
  "bool \<Rightarrow> (string \<Rightarrow> string option) \<Rightarrow> string list \<Rightarrow> extraction list" where
  "GetBucketObjectVersions digitsFirst pattern bucketObjects =
     sortExtractions digitsFirst (List.map_filter (Extract pattern) bucketObjects)"

text \<open>
  \<open>pathToDownload\<close> of \<open>InCommand\<close>: the requested path when there is one, the
  path of the last extraction otherwise, an error when there is no extraction.
\<close>

definition pathToDownload ::
  "bool \<Rightarrow> (string \<Rightarrow> string option) \<Rightarrow> string list \<Rightarrow> string \<Rightarrow> err + string" where
  "pathToDownload digitsFirst pattern bucketObjects requestVersionPath =
     (if requestVersionPath \<noteq> [] then Inr requestVersionPath
      else
        let extractions = GetBucketObjectVersions digitsFirst pattern bucketObjects
        in if length extractions = 0
           then Inl (Err ''no extractions could be found - is your regexp correct?'')
           else Inr (Path (extractions ! (length extractions - 1))))"

text \<open>
  Modelled from the spec: the pattern engine is Go's \<open>regexp\<close>, used by the missing package
  \<open>versions\<close>; \<open>capture lead trail\<close> stands for a pattern made of the literal text \<open>lead\<close>,
  one capturing group that takes everything up to \<open>trail\<close>, and the literal text \<open>trail\<close>.
\<close>

definition capture :: "string \<Rightarrow> string \<Rightarrow> string \<Rightarrow> string option" where
  "capture lead trail path =
     (if length lead + length trail \<le> length path \<and> take (length lead) path = lead
         \<and> drop (length path - length trail) path = trail
      then Some (take (length path - length lead - length trail) (drop (length lead) path))
      else None)"

text \<open>The comparison of two extractions that the sort uses.\<close>

definition olderOrEqual :: "bool \<Rightarrow> extraction \<Rightarrow> extraction \<Rightarrow> bool" where
  "olderOrEqual df a b = (compareVersions df (VersionNumber a) (VersionNumber b) \<le> 0)"

section \<open>Observations on a trace\<close>

text \<open>
  Tests on events, and \<open>fanTrace\<close>, the events of a fan-out in which every \<open>os.Open\<close>
  succeeds.
\<close>

fun isRecv :: "event \<Rightarrow> bool" where
  "isRecv (Recv r) = True"
| "isRecv _ = False"

fun isCompose :: "event \<Rightarrow> bool" where
  "isCompose (ComposeDo bucketName objectPath sourceObjects) = True"
| "isCompose _ = False"

fun isDelete :: "event \<Rightarrow> bool" where
  "isDelete (DeleteDo bucketName objectPath) = True"
| "isDelete _ = False"

fun isWarnDelete :: "event \<Rightarrow> bool" where
  "isWarnDelete (Stderr (WarnDelete objectPath e)) = True"
| "isWarnDelete _ = False"

definition fanTrace ::
  "string \<Rightarrow> (nat \<Rightarrow> byte list \<Rightarrow> insertCall) \<Rightarrow> byte list \<Rightarrow> nat \<Rightarrow> event list" where
  "fanTrace localPath mk localFile n =
     concat (map (\<lambda>i. [Open localPath, Go (mk i localFile)]) [0..<n])"

text \<open>The insert calls handed to goroutines, in the order of their start.\<close>

fun goCalls :: "event list \<Rightarrow> insertCall list" where
  "goCalls [] = []"
| "goCalls (Go call # tr) = call # goCalls tr"
| "goCalls (ev # tr) = goCalls tr"

section \<open>Concrete worlds\<close>

text \<open>
  \<open>quietWorld\<close>: a versioned bucket and an empty local file.  \<open>twoPartWorld\<close>: a versioned
  bucket, a local file of 1 MiB + 1 byte, the second chunk's goroutine reporting before
  the first, and a store that refuses to delete the first part.  \<open>failWorld\<close>: the same,
  but the upload of the second chunk fails.  \<open>unversionedWorld\<close>: \<open>quietWorld\<close> with
  versioning switched off.
\<close>

definition quietWorld :: world where
  "quietWorld =
     \<lparr>bucketsGet = (\<lambda>bucketName. Inr (Some True)),
      osStat = (\<lambda>localPath. Inr 0),
      osOpen = (\<lambda>localPath k. Inr []),
      insertDo = (\<lambda>call. Inr 1700000000000001),
      arrival = [],
      composeDo = (\<lambda>bucketName objectPath sourceObjects. None),
      deleteDo = (\<lambda>bucketName objectPath. None),
      listDo = (\<lambda>bucketName pageToken prefix versions. Inr \<lparr>pageItems = [], nextPageToken = []\<rparr>),
      getDo = (\<lambda>bucketName objectPath generation. Inr 0),
      osCreate = (\<lambda>localPath. None),
      downloadDo = (\<lambda>bucketName objectPath generation. Inr []),
      ioCopy = (\<lambda>body. None)\<rparr>"

definition twoPartWorld :: world where
  "twoPartWorld =
     \<lparr>bucketsGet = (\<lambda>bucketName. Inr (Some True)),
      osStat = (\<lambda>localPath. Inr 1048577),
      osOpen = (\<lambda>localPath k. Inr (replicate 1048577 0)),
      insertDo = (\<lambda>call. Inr 1700000000000001),
      arrival = [1, 0],
      composeDo = (\<lambda>bucketName objectPath sourceObjects. None),
      deleteDo = (\<lambda>bucketName objectPath.
                    if objectPath = ''folder/file.tgz.part0'' then Some (Err ''delete failed'') else None),
      listDo = (\<lambda>bucketName pageToken prefix versions. Inr \<lparr>pageItems = [], nextPageToken = []\<rparr>),
      getDo = (\<lambda>bucketName objectPath generation. Inr 0),
      osCreate = (\<lambda>localPath. None),
      downloadDo = (\<lambda>bucketName objectPath generation. Inr []),
      ioCopy = (\<lambda>body. None)\<rparr>"

definition failWorld :: world where
  "failWorld =
     twoPartWorld\<lparr>insertDo := (\<lambda>call. if icName call = ''folder/file.tgz.part1''
                                        then Inl (Err ''upload failed'') else Inr 1700000000000001)\<rparr>"

definition unversionedWorld :: world where
  "unversionedWorld = quietWorld\<lparr>bucketsGet := (\<lambda>bucketName. Inr (Some False))\<rparr>"


section \<open>Arithmetic of the plan\<close>

lemma int64_id: "inInt64 x \<Longrightarrow> int64 x = x"
  unfolding int64_def inInt64_def by (simp add: mod_pos_pos_trivial)

lemma goQuo_nonneg:
  assumes "0 \<le> a" "0 < b" "inInt64 a"
  shows "goQuo a b = a div b"
proof -
  have "a div b \<le> a div 1"
    using assms by (intro zdiv_mono2) simp_all
  moreover have "0 \<le> a div b"
    using assms by (simp add: pos_imp_zdiv_nonneg_iff)
  ultimately have "inInt64 (a div b)" using assms(3) by (simp add: inInt64_def)
  moreover have "sgn a * sgn b * (\<bar>a\<bar> div \<bar>b\<bar>) = a div b"
    using assms by (cases "a = 0") auto
  ultimately show ?thesis by (simp add: goQuo_def int64_id)
qed

lemma goRem_nonneg: "0 \<le> a \<Longrightarrow> 0 < b \<Longrightarrow> goRem a b = a mod b"
  unfolding goRem_def by (cases "a = 0") auto

lemma ceil_div:
  "0 < (b::int) \<Longrightarrow> \<lceil>real_of_int a / real_of_int b\<rceil> = a div b + (if a mod b \<noteq> 0 then 1 else 0)"
  by (simp add: ceiling_divide_eq_div zdiv_zminus1_eq_if)

lemma div_succ_le:
  assumes "0 \<le> (a::int)" "0 < b" "a mod b \<noteq> 0"
  shows "a div b + 1 \<le> a"
proof -
  have "0 < a mod b" using assms by (simp add: less_le)
  moreover have "a div b * 1 \<le> a div b * b"
    using assms by (intro mult_left_mono) (simp_all add: pos_imp_zdiv_nonneg_iff)
  moreover have "a = a div b * b + a mod b" by simp
  ultimately show ?thesis by linarith
qed

lemma plannedThreads_nonneg:
  assumes "0 \<le> fileSize" "inInt64 fileSize" "0 < trunkSize"
  shows "plannedThreads fileSize trunkSize = \<lceil>real_of_int fileSize / real_of_int trunkSize\<rceil>"
proof (cases "fileSize mod trunkSize = 0")
  case True
  then show ?thesis
    using assms by (simp add: plannedThreads_def goQuo_nonneg goRem_nonneg ceil_div)
next
  case False
  have "0 \<le> fileSize div trunkSize"
    using assms by (simp add: pos_imp_zdiv_nonneg_iff)
  moreover have "fileSize div trunkSize + 1 \<le> fileSize"
    using assms False by (intro div_succ_le)
  ultimately have "inInt64 (fileSize div trunkSize + 1)"
    using assms(2) by (simp add: inInt64_def)
  then show ?thesis
    using assms False by (simp add: plannedThreads_def goQuo_nonneg goRem_nonneg ceil_div int64_id)
qed

lemma ceil_gt_imp:
  assumes "0 < (t::int)" "32 < \<lceil>real_of_int f / real_of_int t\<rceil>"
  shows "32 * t < f"
proof -
  have "real_of_int 32 < real_of_int f / real_of_int t"
    using assms(2) by (simp only: less_ceiling_iff)
  then have "real_of_int 32 * real_of_int t < real_of_int f"
    using assms(1) by (simp add: pos_less_divide_eq)
  then have "real_of_int (32 * t) < real_of_int f" by simp
  then show ?thesis by (simp only: of_int_less_iff)
qed

lemma planParallelUpload_pos:
  assumes "0 \<le> fileSize" "inInt64 fileSize" "0 < trunkSize"
  shows "planParallelUpload fileSize trunkSize =
           (if 32 < \<lceil>real_of_int fileSize / real_of_int trunkSize\<rceil>
            then Inr ((32, fileSize div 32), [WarnThreadCap (fileSize div 32 div 2 ^ 20)])
            else Inr ((\<lceil>real_of_int fileSize / real_of_int trunkSize\<rceil>, trunkSize), []))"
  using assms
  by (simp add: planParallelUpload_def plannedThreads_nonneg goQuo_nonneg goShr_def)

lemma goShl_20:
  assumes "0 < thr" "thr < 2 ^ 43"
  shows "goShl thr 20 = thr * 2 ^ 20"
proof -
  have "thr * 2 ^ 20 < 2 ^ 43 * 2 ^ 20" using assms by simp
  then have "inInt64 (thr * 2 ^ 20)" using assms(1) by (simp add: inInt64_def)
  then show ?thesis by (simp add: goShl_def int64_id)
qed

lemma plannedThreads_neg_trunk:
  assumes "0 \<le> fileSize" "inInt64 fileSize" "trunkSize < 0"
  shows "plannedThreads fileSize trunkSize \<le> 1"
proof -
  let ?q = "fileSize div (- trunkSize)"
  have "?q \<le> fileSize div 1"
    using assms by (intro zdiv_mono2) simp_all
  moreover have "0 \<le> ?q"
    using assms by (simp add: pos_imp_zdiv_nonneg_iff)
  ultimately have q: "0 \<le> ?q" "?q \<le> fileSize" by simp_all
  have "sgn fileSize * sgn trunkSize * (\<bar>fileSize\<bar> div \<bar>trunkSize\<bar>) = - ?q"
    using assms by (cases "fileSize = 0") auto
  moreover have "inInt64 (- ?q)" "inInt64 (- ?q + 1)"
    using q assms(2) by (simp_all add: inInt64_def)
  ultimately have "goQuo fileSize trunkSize = - ?q" "int64 (goQuo fileSize trunkSize + 1) = - ?q + 1"
    by (simp_all add: goQuo_def int64_id)
  then show ?thesis using q by (simp add: plannedThreads_def Let_def)
qed

lemma plan_parallel_bounds:
  assumes "0 \<le> fileSize" "inInt64 fileSize"
    and plan: "planParallelUpload fileSize trunk0 = Inr ((threads, trunkSize), warn)"
    and "1 < threads"
  shows "0 < trunkSize \<and> (threads - 1) * trunkSize \<le> fileSize"
proof -
  have "trunk0 \<noteq> 0" using plan by (auto simp: planParallelUpload_def)
  moreover have "\<not> trunk0 < 0"
  proof
    assume "trunk0 < 0"
    then have "plannedThreads fileSize trunk0 \<le> 1"
      using assms(1,2) by (intro plannedThreads_neg_trunk)
    then show False
      using plan \<open>1 < threads\<close> \<open>trunk0 \<noteq> 0\<close> by (simp add: planParallelUpload_def)
  qed
  ultimately have pos: "0 < trunk0" by simp
  let ?c = "\<lceil>real_of_int fileSize / real_of_int trunk0\<rceil>"
  show ?thesis
  proof (cases "32 < ?c")
    case True
    then have "threads = 32" "trunkSize = fileSize div 32"
      using plan assms(1,2) pos by (simp_all add: planParallelUpload_pos)
    moreover have "32 * trunk0 < fileSize" using pos True by (rule ceil_gt_imp)
    then have "32 \<le> fileSize" using pos by linarith
    then have "0 < fileSize div 32" by (simp add: pos_imp_zdiv_pos_iff)
    moreover have "fileSize div 32 * 32 \<le> fileSize"
      using div_mult_mod_eq [of fileSize 32] pos_mod_sign [of 32 fileSize] by linarith
    ultimately show ?thesis by simp
  next
    case False
    then have "planParallelUpload fileSize trunk0 = Inr ((?c, trunk0), [])"
      using assms(1,2) pos by (simp add: planParallelUpload_pos)
    then have eq: "threads = ?c" "trunkSize = trunk0"
      using plan by auto
    have "?c = fileSize div trunk0 + (if fileSize mod trunk0 \<noteq> 0 then 1 else 0)"
      using pos by (rule ceil_div)
    then have "?c - 1 \<le> fileSize div trunk0" by simp
    then have "(?c - 1) * trunk0 \<le> fileSize div trunk0 * trunk0"
      using pos by (intro mult_right_mono) simp_all
    also have "\<dots> \<le> fileSize"
      using div_mult_mod_eq [of fileSize trunk0] pos_mod_sign [of trunk0 fileSize] pos by linarith
    finally show ?thesis using pos by (simp only: eq simp_thms)
  qed
qed

text \<open>
  The shift \<open>int64(parallelUploadThreshold) << 20\<close> wraps: a threshold of \<open>2 ^ 44\<close> MiB
  becomes a chunk size of 0 and \<open>planParallelUpload\<close> panics on the division.
\<close>

lemma UploadFile_threshold_overflow:
  "getBucketVersioning w bucketName = Inr isBucketVersioned \<Longrightarrow> osStat w localPath = Inr fileSize \<Longrightarrow>
   fst (UploadFile w bucketName objectPath objectContentType localPath predefinedACL (2 ^ 44))
     = Inl DivideByZero"
  by (simp add: UploadFile_def planParallelUpload_def goShl_def int64_def)

section \<open>The three loops of the multi-part upload\<close>

lemma fanOut_ok:
  "\<forall>i\<in>set idx. osOpen w localPath i = Inr localFile \<Longrightarrow>
   fanOut w localPath mk idx
     = (Inr (map (\<lambda>i. mk i localFile) idx),
        concat (map (\<lambda>i. [Open localPath, Go (mk i localFile)]) idx))"
  by (induction idx) simp_all

lemma arrival_length:
  assumes "distinct (arrival w)" "set (arrival w) = {0..<n}"
  shows "length (arrival w) = n"
proof -
  have "length (arrival w) = card (set (arrival w))"
    using assms(1) by (simp add: distinct_card)
  then show ?thesis using assms(2) by simp
qed

lemma errChannel_valid:
  assumes "length calls = n" "set (arrival w) = {0..<n}"
  shows "errChannel w calls = map (\<lambda>k. workerErr w (calls ! k)) (arrival w)"
proof -
  have "filter (\<lambda>k. k < length calls) (arrival w) = arrival w"
    using assms by (intro filter_True) simp
  then show ?thesis by (simp add: errChannel_def)
qed

lemma joinLoop_all_ok:
  "joinLoop n (replicate n None @ rest) = (Inr None, replicate n (Recv None))"
  by (induction n) simp_all

lemma joinLoop_first_err:
  "m < n \<Longrightarrow>
   joinLoop n (replicate m None @ Some e # rest)
     = (Inr (Some e), replicate m (Recv None) @ [Recv (Some e)])"
proof (induction m arbitrary: n)
  case 0
  then show ?case by (cases n) simp_all
next
  case (Suc m)
  then show ?case by (cases n) simp_all
qed

lemma cleanup_no_compose: "filter isCompose (cleanup w bucketName objectPath idx) = []"
  by (induction idx) (simp_all split: option.split)

lemma cleanup_no_recv: "filter isRecv (cleanup w bucketName objectPath idx) = []"
  by (induction idx) (simp_all split: option.split)

lemma cleanup_deletes:
  "filter isDelete (cleanup w bucketName objectPath idx)
     = map (\<lambda>i. DeleteDo bucketName (partName objectPath i)) idx"
  by (induction idx) (simp_all split: option.split)

lemma cleanup_warnings:
  "filter isWarnDelete (cleanup w bucketName objectPath idx)
     = concat (map (\<lambda>i. case deleteDo w bucketName (partName objectPath i) of
                            Some e \<Rightarrow> [Stderr (WarnDelete (partName objectPath i) e)]
                          | None \<Rightarrow> []) idx)"
  by (induction idx) (simp_all split: option.split)

lemma fanTrace_filters:
  "filter isCompose (fanTrace localPath mk localFile n) = []"
  "filter isDelete (fanTrace localPath mk localFile n) = []"
  "filter isRecv (fanTrace localPath mk localFile n) = []"
  "filter isWarnDelete (fanTrace localPath mk localFile n) = []"
  by (induction n) (simp_all add: fanTrace_def)

lemma parallelUpload_all_ok:
  assumes opens: "\<forall>i<nat threads. osOpen w localPath i = Inr localFile"
    and ok: "\<forall>i<nat threads. workerErr w (chunkInsert bucketName objectPath objectContentType
               predefinedACL threads trunkSize i localFile) = None"
    and arr: "distinct (arrival w)" "set (arrival w) = {0..<nat threads}"
  shows "parallelUpload w bucketName objectPath objectContentType localPath predefinedACL threads trunkSize
    = (case composeDo w bucketName objectPath (map (partName objectPath) [0..<nat threads]) of
         Some e \<Rightarrow>
           (Inr (0, Some e),
            fanTrace localPath (chunkInsert bucketName objectPath objectContentType predefinedACL threads trunkSize)
                localFile (nat threads)
              @ replicate (nat threads) (Recv None)
              @ [Stderr LogCompose,
                 ComposeDo bucketName objectPath (map (partName objectPath) [0..<nat threads])])
       | None \<Rightarrow>
           (Inr (0, None),
            fanTrace localPath (chunkInsert bucketName objectPath objectContentType predefinedACL threads trunkSize)
                localFile (nat threads)
              @ replicate (nat threads) (Recv None)
              @ [Stderr LogCompose,
                 ComposeDo bucketName objectPath (map (partName objectPath) [0..<nat threads])]
              @ Stderr LogCleanup # cleanup w bucketName objectPath [0..<nat threads]))"
proof -
  let ?mk = "chunkInsert bucketName objectPath objectContentType predefinedACL threads trunkSize"
  let ?calls = "map (\<lambda>i. ?mk i localFile) [0..<nat threads]"
  have fan: "fanOut w localPath ?mk [0..<nat threads]
               = (Inr ?calls, fanTrace localPath ?mk localFile (nat threads))"
    unfolding fanTrace_def using opens by (intro fanOut_ok) simp
  have "errChannel w ?calls = map (\<lambda>k. workerErr w (?calls ! k)) (arrival w)"
    using arr(2) by (intro errChannel_valid) simp_all
  also have "\<dots> = map (\<lambda>k. None) (arrival w)"
    using arr(2) ok by (intro map_cong) simp_all
  also have "\<dots> = replicate (nat threads) None"
    using arrival_length [OF arr] by (simp add: map_replicate_const)
  finally have "joinLoop (nat threads) (errChannel w ?calls)
                  = (Inr None, replicate (nat threads) (Recv None))"
    using joinLoop_all_ok [of "nat threads" "[]"] by simp
  then show ?thesis
    by (simp add: parallelUpload_def Let_def fan split: option.split)
qed

lemma parallelUpload_first_failure:
  assumes opens: "\<forall>i<nat threads. osOpen w localPath i = Inr localFile"
    and arr: "distinct (arrival w)" "set (arrival w) = {0..<nat threads}"
    and split: "arrival w = before @ k # later"
    and ok: "\<forall>j\<in>set before. workerErr w (chunkInsert bucketName objectPath objectContentType
               predefinedACL threads trunkSize j localFile) = None"
    and bad: "workerErr w (chunkInsert bucketName objectPath objectContentType
               predefinedACL threads trunkSize k localFile) = Some e"
  shows "parallelUpload w bucketName objectPath objectContentType localPath predefinedACL threads trunkSize
    = (Inr (0, Some e),
       fanTrace localPath (chunkInsert bucketName objectPath objectContentType predefinedACL threads trunkSize)
           localFile (nat threads)
         @ replicate (length before) (Recv None) @ [Recv (Some e)])"
proof -
  let ?mk = "chunkInsert bucketName objectPath objectContentType predefinedACL threads trunkSize"
  let ?calls = "map (\<lambda>i. ?mk i localFile) [0..<nat threads]"
  have fan: "fanOut w localPath ?mk [0..<nat threads]
               = (Inr ?calls, fanTrace localPath ?mk localFile (nat threads))"
    unfolding fanTrace_def using opens by (intro fanOut_ok) simp
  have inr: "\<forall>j\<in>set (arrival w). j < nat threads" using arr(2) by simp
  have "errChannel w ?calls = map (\<lambda>k. workerErr w (?calls ! k)) (arrival w)"
    using arr(2) by (intro errChannel_valid) simp_all
  also have "\<dots> = map (\<lambda>j. workerErr w (?mk j localFile)) (arrival w)"
    using inr by (intro map_cong) simp_all
  also have "\<dots> = replicate (length before) None @ Some e
                      # map (\<lambda>j. workerErr w (?mk j localFile)) later"
    using ok bad by (simp add: split map_replicate_const [symmetric] cong: map_cong)
  finally have ch: "errChannel w ?calls = replicate (length before) None @ Some e
                      # map (\<lambda>j. workerErr w (?mk j localFile)) later" .
  have "length before < nat threads"
    using arrival_length [OF arr] by (simp add: split)
  then have "joinLoop (nat threads) (errChannel w ?calls)
               = (Inr (Some e), replicate (length before) (Recv None) @ [Recv (Some e)])"
    unfolding ch by (rule joinLoop_first_err)
  then show ?thesis
    by (simp add: parallelUpload_def Let_def fan)
qed

lemma UploadFile_parallel:
  assumes "getBucketVersioning w bucketName = Inr isBucketVersioned"
    and "osStat w localPath = Inr fileSize"
    and "0 < parallelUploadThreshold"
    and "planParallelUpload fileSize (goShl parallelUploadThreshold 20) = Inr ((threads, trunkSize), warn)"
    and "1 < threads"
  shows "UploadFile w bucketName objectPath objectContentType localPath predefinedACL parallelUploadThreshold
    = (case parallelUpload w bucketName objectPath objectContentType localPath predefinedACL threads trunkSize of
         (r, tr) \<Rightarrow>
           (r, [BucketsGet bucketName, Stat localPath] @ map Stderr warn
                 @ [Stderr (LogParallel False threads)] @ tr))"
  using assms by (simp add: UploadFile_def)

lemma goCalls_append: "goCalls (tr @ tr') = goCalls tr @ goCalls tr'"
  by (induction tr rule: goCalls.induct) simp_all

lemma goCalls_fanTrace: "goCalls (fanTrace localPath mk localFile n) = map (\<lambda>i. mk i localFile) [0..<n]"
  by (induction n) (simp_all add: fanTrace_def goCalls_append)

lemma goCalls_joinLoop: "goCalls (snd (joinLoop n ch)) = []"
  by (induction n ch rule: joinLoop.induct) (auto split: prod.split)

lemma goCalls_cleanup: "goCalls (cleanup w bucketName objectPath idx) = []"
  by (induction idx) (simp_all add: goCalls_append split: option.split)

lemma goCalls_Stderr: "goCalls (map Stderr warn) = []"
  by (induction warn) simp_all

lemma fanOut_length:
  "fanOut w localPath mk idx = (Inr calls, tr) \<Longrightarrow> length calls = length idx"
  by (induction idx arbitrary: calls tr) (auto split: sum.splits prod.splits)

lemma joinLoop_returns:
  "n \<le> length ch \<Longrightarrow> \<exists>r tr. joinLoop n ch = (Inr r, tr)"
  by (induction n ch rule: joinLoop.induct) (auto split: prod.split)

lemma parallelUpload_generation_zero:
  assumes arr: "distinct (arrival w)" "set (arrival w) = {0..<nat threads}"
  shows "\<exists>e tr. parallelUpload w bucketName objectPath objectContentType localPath predefinedACL
                   threads trunkSize = (Inr (0, e), tr)"
proof -
  let ?mk = "chunkInsert bucketName objectPath objectContentType predefinedACL threads trunkSize"
  obtain r tr where fan: "fanOut w localPath ?mk [0..<nat threads] = (r, tr)"
    by (cases "fanOut w localPath ?mk [0..<nat threads]")
  show ?thesis
  proof (cases r)
    case (Inl e)
    then show ?thesis by (simp add: parallelUpload_def Let_def fan)
  next
    case (Inr calls)
    then have len: "length calls = nat threads"
      using fanOut_length [of w localPath ?mk "[0..<nat threads]" calls tr] fan by simp
    then have "length (errChannel w calls) = nat threads"
      using errChannel_valid [OF len arr(2)] arrival_length [OF arr] by simp
    then obtain r2 tr2 where "joinLoop (nat threads) (errChannel w calls) = (Inr r2, tr2)"
      using joinLoop_returns [of "nat threads" "errChannel w calls"] by auto
    then show ?thesis
      using Inr by (simp add: parallelUpload_def Let_def fan split: option.split)
  qed
qed

section \<open>The byte ranges of the chunk readers\<close>

lemma chunkReader_ranges:
  assumes "0 < trunkSize" "(threads - 1) * trunkSize \<le> int (length localFile)"
    and "inInt64 (int (length localFile))" "int i \<le> threads - 1"
  shows "chunkReader threads trunkSize i localFile
           = (if int i < threads - 1 then take (nat trunkSize) (drop (i * nat trunkSize) localFile)
              else drop (i * nat trunkSize) localFile)"
proof -
  have "trunkSize * int i \<le> trunkSize * (threads - 1)"
    using assms(1,4) by (intro mult_left_mono) simp_all
  also have "\<dots> = (threads - 1) * trunkSize" by (rule mult.commute)
  finally have le: "trunkSize * int i \<le> int (length localFile)"
    using assms(2) by (rule order_trans)
  have nonneg: "0 \<le> trunkSize * int i" using assms(1) by simp
  have "inInt64 (trunkSize * int i)"
    using assms(3) le nonneg by (simp add: inInt64_def)
  moreover have "nat (trunkSize * int i) = i * nat trunkSize"
    using assms(1) by (simp add: nat_mult_distrib)
  ultimately show ?thesis
    using nonneg assms(4)
    by (auto simp add: chunkReader_def seekStart_def limitReader_def int64_id)
qed

lemma chunks_concat:
  "concat (map (\<lambda>i. take c (drop (i * c) xs)) [0..<m]) @ drop (m * c) xs = xs"
proof (induction m)
  case 0
  then show ?case by simp
next
  case (Suc m)
  have "take c (drop (m * c) xs) @ drop (Suc m * c) xs = drop (m * c) xs"
    by (simp add: add.commute drop_drop [symmetric] del: drop_drop)
  then show ?case using Suc by simp
qed

lemma chunks_partition:
  assumes "0 < n"
  shows "concat (map (\<lambda>i. if i < n - 1 then take c (drop (i * c) xs) else drop (i * c) xs) [0..<n]) = xs"
proof -
  obtain m where n: "n = Suc m" using assms by (cases n) simp_all
  have inner: "map (\<lambda>i. if i < m then take c (drop (i * c) xs) else drop (i * c) xs) [0..<m]
          = map (\<lambda>i. take c (drop (i * c) xs)) [0..<m]"
    by (intro map_cong) simp_all
  show ?thesis unfolding n by (simp add: inner chunks_concat)
qed

lemma parallelUpload_goCalls:
  assumes "\<forall>i<nat threads. osOpen w localPath i = Inr localFile"
  shows "goCalls (snd (parallelUpload w bucketName objectPath objectContentType localPath predefinedACL
                         threads trunkSize))
         = map (\<lambda>i. chunkInsert bucketName objectPath objectContentType predefinedACL threads trunkSize
                       i localFile) [0..<nat threads]"
proof -
  let ?mk = "chunkInsert bucketName objectPath objectContentType predefinedACL threads trunkSize"
  let ?calls = "map (\<lambda>i. ?mk i localFile) [0..<nat threads]"
  have fan: "fanOut w localPath ?mk [0..<nat threads]
               = (Inr ?calls, fanTrace localPath ?mk localFile (nat threads))"
    unfolding fanTrace_def using assms by (intro fanOut_ok) simp
  obtain r tr where j: "joinLoop (nat threads) (errChannel w ?calls) = (r, tr)"
    by (cases "joinLoop (nat threads) (errChannel w ?calls)")
  then have tr: "goCalls tr = []"
    using goCalls_joinLoop [of "nat threads" "errChannel w ?calls"] by simp
  show ?thesis
  proof (cases r)
    case (Inl f)
    then show ?thesis
      by (simp add: parallelUpload_def Let_def fan j tr goCalls_append goCalls_fanTrace)
  next
    case (Inr eo)
    then show ?thesis
      by (cases eo; cases "composeDo w bucketName objectPath (map (partName objectPath) [0..<nat threads])")
         (simp_all add: parallelUpload_def Let_def fan j tr goCalls_append goCalls_fanTrace goCalls_cleanup)
  qed
qed

lemma pre_no_compose:
  "\<forall>ev \<in> set ([BucketsGet bucketName, Stat localPath] @ map Stderr warn
               @ [Stderr (LogParallel False threads)]
               @ fanTrace localPath mk localFile n @ replicate n (Recv None) @ [Stderr LogCompose]).
     \<not> isCompose ev"
proof -
  have "filter isCompose ([BucketsGet bucketName, Stat localPath] @ map Stderr warn
               @ [Stderr (LogParallel False threads)]
               @ fanTrace localPath mk localFile n @ replicate n (Recv None) @ [Stderr LogCompose]) = []"
    by (simp add: fanTrace_filters comp_def)
  then show ?thesis by (simp only: filter_empty_conv)
qed

section \<open>Facts about the concrete worlds\<close>

lemma twoPart_plan: "planParallelUpload 1048577 (goShl 1 20) = Inr ((2, 1048576), [])"
  by (simp add: planParallelUpload_def plannedThreads_def goQuo_def goRem_def goShl_def int64_def)

lemma twoPart_names:
  "map (partName ''folder/file.tgz'') [0..<nat 2] = [''folder/file.tgz.part0'', ''folder/file.tgz.part1'']"
  by (simp add: partName_def itoa_def natDigits.simps upt_rec)

lemma twoPart_arrival:
  "distinct (arrival twoPartWorld)" "set (arrival twoPartWorld) = {0..<nat 2}"
  "distinct (arrival failWorld)" "set (arrival failWorld) = {0..<nat 2}"
  by (auto simp add: twoPartWorld_def failWorld_def)

lemma twoPart_basics:
  "getBucketVersioning twoPartWorld ''bucket'' = Inr True"
  "osStat twoPartWorld ''/tmp/file.tgz'' = Inr 1048577"
  "\<forall>i<nat 2. osOpen twoPartWorld ''/tmp/file.tgz'' i = Inr (replicate 1048577 0)"
  "getBucketVersioning failWorld ''bucket'' = Inr True"
  "osStat failWorld ''/tmp/file.tgz'' = Inr 1048577"
  "\<forall>i<nat 2. osOpen failWorld ''/tmp/file.tgz'' i = Inr (replicate 1048577 0)"
  by (simp_all add: twoPartWorld_def failWorld_def getBucketVersioning_def)

lemma twoPart_uploads:
  "\<forall>i<nat 2. workerErr twoPartWorld (chunkInsert ''bucket'' ''folder/file.tgz''
              ''application/gzip'' [] 2 1048576 i (replicate 1048577 0)) = None"
  by (simp add: twoPartWorld_def workerErr_def)

lemma failWorld_upload:
  "workerErr failWorld (chunkInsert ''bucket'' ''folder/file.tgz''
              ''application/gzip'' [] 2 1048576 1 (replicate 1048577 0)) = Some (Err ''upload failed'')"
  by (simp add: twoPartWorld_def failWorld_def workerErr_def chunkInsert_def partName_def itoa_def
        natDigits.simps)

text \<open>With generation 0 an unversioned bucket is no obstacle: the object get is issued.\<close>

lemma DownloadFile_latest_unversioned:
  "getBucketVersioning w bucketName = Inr False \<Longrightarrow>
   getDo w bucketName objectPath None = Inl e \<Longrightarrow>
   DownloadFile w bucketName objectPath 0 localPath
     = (Some e, [BucketsGet bucketName, GetDo bucketName objectPath None])"
  by (simp add: DownloadFile_def)

section \<open>The order on versions\<close>

lemma lexCompare_flip:
  assumes "\<And>x y. cmp y x = - cmp x y"
  shows "lexCompare cmp ys xs = - lexCompare cmp xs ys"
proof (induction xs ys rule: list_induct2')
  case (4 x xs y ys)
  then show ?case using assms [of x y] by auto
qed simp_all

lemma lexCompare_zero:
  assumes "\<And>x y. cmp x y = 0 \<longleftrightarrow> x = y"
  shows "lexCompare cmp xs ys = 0 \<longleftrightarrow> xs = ys"
  by (induction xs ys rule: list_induct2') (auto simp add: assms)

lemma lexCompare_trans:
  assumes flip: "\<And>x y. cmp y x = - cmp x y"
    and zero: "\<And>x y. cmp x y = 0 \<longleftrightarrow> x = y"
    and trans: "\<And>x y z. cmp x y \<le> 0 \<Longrightarrow> cmp y z \<le> 0 \<Longrightarrow> cmp x z \<le> 0"
  shows "lexCompare cmp xs ys \<le> 0 \<Longrightarrow> lexCompare cmp ys zs \<le> 0 \<Longrightarrow> lexCompare cmp xs zs \<le> 0"
proof (induction xs arbitrary: ys zs)
  case Nil
  then show ?case by (cases zs) simp_all
next
  case (Cons x xs)
  then obtain y ys' where ys: "ys = y # ys'" by (cases ys) simp_all
  with Cons.prems obtain z zs' where zs: "zs = z # zs'" by (cases zs) (simp_all split: if_splits)
  show ?case
  proof (cases "x = y")
    case True
    show ?thesis
    proof (cases "y = z")
      case yz: True
      then show ?thesis
        using Cons.prems Cons.IH [of ys' zs'] True zero by (simp add: ys zs)
    next
      case False
      then show ?thesis
        using Cons.prems True zero by (simp add: ys zs)
    qed
  next
    case False
    then have xy: "cmp x y < 0"
      using Cons.prems(1) zero [of x y] by (simp add: ys)
    show ?thesis
    proof (cases "y = z")
      case True
      then show ?thesis using xy zero [of x z] False by (simp add: ys zs)
    next
      case yz: False
      then have "cmp y z < 0"
        using Cons.prems(2) zero [of y z] by (simp add: ys zs)
      then have "cmp x z \<le> 0" using xy trans [of x y z] by simp
      moreover have "x \<noteq> z"
      proof
        assume "x = z"
        then have "cmp y x < 0" using \<open>cmp y z < 0\<close> by simp
        then show False using xy flip [of x y] by simp
      qed
      ultimately show ?thesis using zero [of x z] by (simp add: ys zs)
    qed
  qed
qed

lemma compareNat_props:
  "compareNat n m = - compareNat m n"
  "compareNat m n = 0 \<longleftrightarrow> m = n"
  "compareNat m n \<le> 0 \<Longrightarrow> compareNat n k \<le> 0 \<Longrightarrow> compareNat m k \<le> 0"
  by (auto simp add: compareNat_def split: if_splits)

lemma compareChar_props:
  "compareChar b a = - compareChar a b"
  "compareChar a b = 0 \<longleftrightarrow> a = b"
  "compareChar a b \<le> 0 \<Longrightarrow> compareChar b c \<le> 0 \<Longrightarrow> compareChar a c \<le> 0"
  by (auto simp add: compareChar_def compareNat_def split: if_splits)


lemmas lexCompare_chars_flip = lexCompare_flip [of compareChar, OF compareChar_props(1)]

lemma compareSegment_flip: "compareSegment df y x = - compareSegment df x y"
proof (cases x; cases y)
  fix m n
  assume "x = Digits m" "y = Digits n"
  then show ?thesis by (simp add: compareNat_def)
next
  fix s t
  assume "x = Text s" "y = Text t"
  then show ?thesis using lexCompare_chars_flip [of t s] by simp
qed simp_all

lemma compareSegment_zero: "compareSegment df x y = 0 \<longleftrightarrow> x = y"
  by (cases x; cases y)
     (simp_all add: compareNat_props(2) lexCompare_zero [of compareChar, OF compareChar_props(2)])

lemma compareSegment_trans:
  "compareSegment df x y \<le> 0 \<Longrightarrow> compareSegment df y z \<le> 0 \<Longrightarrow> compareSegment df x z \<le> 0"
proof (cases x; cases y; cases z)
  fix s t u
  assume "x = Text s" "y = Text t" "z = Text u"
    and "compareSegment df x y \<le> 0" "compareSegment df y z \<le> 0"
  then show ?thesis
    using lexCompare_trans [of compareChar s t u, OF compareChar_props] by simp
qed (auto simp add: compareNat_def split: if_splits)

lemma compareVersions_flip: "compareVersions df b a = - compareVersions df a b"
  unfolding compareVersions_def by (rule lexCompare_flip) (rule compareSegment_flip)

lemma compareVersions_refl: "compareVersions df a a = 0"
  unfolding compareVersions_def
  by (simp add: lexCompare_zero [of "compareSegment df", OF compareSegment_zero])

lemma compareVersions_trans:
  "compareVersions df a b \<le> 0 \<Longrightarrow> compareVersions df b c \<le> 0 \<Longrightarrow> compareVersions df a c \<le> 0"
  unfolding compareVersions_def
  by (rule lexCompare_trans [of "compareSegment df", OF compareSegment_flip compareSegment_zero
        compareSegment_trans])

lemma olderOrEqual_total: "\<not> olderOrEqual df a b \<Longrightarrow> olderOrEqual df b a"
  unfolding olderOrEqual_def
  using compareVersions_flip [of df "VersionNumber b" "VersionNumber a"] by simp

lemma olderOrEqual_trans:
  "olderOrEqual df a b \<Longrightarrow> olderOrEqual df b c \<Longrightarrow> olderOrEqual df a c"
  unfolding olderOrEqual_def by (rule compareVersions_trans)

lemma set_insertExtraction: "set (insertExtraction df e xs) = insert e (set xs)"
  by (induction xs) auto

lemma sorted_insertExtraction:
  "sorted_wrt (olderOrEqual df) xs \<Longrightarrow> sorted_wrt (olderOrEqual df) (insertExtraction df e xs)"
proof (induction xs)
  case Nil
  then show ?case by simp
next
  case (Cons x xs)
  show ?case
  proof (cases "olderOrEqual df e x")
    case True
    then have "\<forall>y\<in>set xs. olderOrEqual df e y"
      using Cons.prems olderOrEqual_trans [of df e x] by auto
    then show ?thesis using True Cons.prems by (simp add: olderOrEqual_def)
  next
    case False
    then have "olderOrEqual df x e" by (rule olderOrEqual_total)
    then show ?thesis
      using False Cons by (auto simp add: olderOrEqual_def [of df e x] set_insertExtraction)
  qed
qed

lemma sortExtractions_props:
  "set (sortExtractions df es) = set es"
  "sorted_wrt (olderOrEqual df) (sortExtractions df es)"
  "length (sortExtractions df es) = 0 \<longleftrightarrow> es = []"
  unfolding sortExtractions_def
  by (induction es) (auto simp add: set_insertExtraction sorted_insertExtraction
                       simp flip: set_empty)

lemma sorted_last_newest:
  "sorted_wrt (olderOrEqual df) xs \<Longrightarrow> x \<in> set xs \<Longrightarrow> olderOrEqual df x (last xs)"
proof (induction xs)
  case Nil
  then show ?case by simp
next
  case (Cons y ys)
  show ?case
  proof (cases "ys = []")
    case True
    then show ?thesis using Cons.prems by (simp add: olderOrEqual_def compareVersions_refl)
  next
    case False
    then show ?thesis using Cons by auto
  qed
qed

lemma set_map_filter_Extract:
  "set (List.map_filter (Extract pattern) bucketObjects)
     = {\<lparr>Path = path, VersionNumber = match\<rparr> | path match. path \<in> set bucketObjects \<and> pattern path = Some match}"
  by (induction bucketObjects) (auto simp add: map_filter_simps Extract_def split: option.splits)

section \<open>Claims about the plan\<close>

text \<open>
  C5, as amended.  When \<open>ceil(fileSize / threshold)\<close> exceeds 32 for a positive
  threshold, \<open>planParallelUpload\<close> returns exactly 32 threads and the chunk size
  \<open>fileSize / 32\<close>, rounded down, with the warning.  The chunk size times 32 is at most
  \<open>fileSize\<close> and misses it by less than 32 bytes; for \<open>fileSize = threshold * 32 + 1\<close>
  the chunk size is the threshold again and 32 chunks cover \<open>fileSize - 1\<close> bytes, the
  last byte being left to the unbounded final reader.
\<close>

theorem planParallelUpload_clamp:
  assumes "inInt64 fileSize" "0 < trunkSize"
    and "32 < \<lceil>real_of_int fileSize / real_of_int trunkSize\<rceil>"
  shows "planParallelUpload fileSize trunkSize
           = Inr ((32, fileSize div 32), [WarnThreadCap (fileSize div 32 div 2 ^ 20)])
         \<and> fileSize div 32 * 32 \<le> fileSize \<and> fileSize < fileSize div 32 * 32 + 32
         \<and> (fileSize = trunkSize * 32 + 1 \<longrightarrow>
               fileSize div 32 = trunkSize \<and> fileSize div 32 * 32 = fileSize - 1)"
proof -
  have "32 * trunkSize < fileSize" using assms(2,3) by (rule ceil_gt_imp)
  then have "0 \<le> fileSize" using assms(2) by simp
  then have "planParallelUpload fileSize trunkSize
           = Inr ((32, fileSize div 32), [WarnThreadCap (fileSize div 32 div 2 ^ 20)])"
    using assms by (simp add: planParallelUpload_pos)
  moreover have "fileSize div 32 * 32 \<le> fileSize" "fileSize < fileSize div 32 * 32 + 32"
    by presburger+
  moreover have "fileSize = trunkSize * 32 + 1 \<longrightarrow>
               fileSize div 32 = trunkSize \<and> fileSize div 32 * 32 = fileSize - 1"
    by presburger
  ultimately show ?thesis by blast
qed

text \<open>Witness for C5: a threshold of 1 MiB and a file of 32 MiB + 1 byte.\<close>

theorem planParallelUpload_clamp_witness:
  "inInt64 33554433 \<and> (0::int) < 1048576
   \<and> 32 < \<lceil>real_of_int 33554433 / real_of_int 1048576\<rceil>
   \<and> planParallelUpload 33554433 1048576 = Inr ((32, 1048576), [WarnThreadCap 1])
   \<and> (1048576::int) * 32 = 33554433 - 1"
  using planParallelUpload_clamp [of 33554433 1048576] by (simp add: inInt64_def)

text \<open>
  Counterexample to C5 as stated: at that input the recomputed chunk size times 32 is
  smaller than the file size.
\<close>

theorem planParallelUpload_clamp_counterexample:
  "planParallelUpload (1048576 * 32 + 1) 1048576 = Inr ((32, 1048576), [WarnThreadCap 1])
   \<and> \<not> ((1048576::int) * 32 \<ge> 1048576 * 32 + 1)"
  by (simp add: planParallelUpload_def plannedThreads_def goQuo_def goRem_def goShr_def int64_def)

text \<open>
  C6, as amended.  For an empty file and a positive byte threshold \<open>planParallelUpload\<close>
  divides without fault and returns 0 threads (not 1) with the threshold unchanged.
  \<open>UploadFile\<close>, given a threshold in MiB between 1 and \<open>2 ^ 43 - 1\<close>, then takes the
  single-part branch, since 0 is not greater than 1, and uploads the file with one
  insert request.
\<close>

theorem planParallelUpload_empty_file:
  assumes "0 < trunkSize"
  shows "planParallelUpload 0 trunkSize = Inr ((0, trunkSize), [])
    \<and> (getBucketVersioning w bucketName = Inr isBucketVersioned \<longrightarrow> osStat w localPath = Inr 0 \<longrightarrow>
         0 < parallelUploadThreshold \<longrightarrow> parallelUploadThreshold < 2 ^ 43 \<longrightarrow>
         UploadFile w bucketName objectPath objectContentType localPath predefinedACL parallelUploadThreshold
           = (case singleUpload w bucketName objectPath objectContentType localPath predefinedACL isBucketVersioned of
                (r, tr) \<Rightarrow> (r, [BucketsGet bucketName, Stat localPath, Stderr (LogParallel False 0)] @ tr)))"
proof -
  have plan: "planParallelUpload 0 t = Inr ((0, t), [])" if "0 < t" for t
    using that by (simp add: planParallelUpload_def plannedThreads_def goQuo_def goRem_def int64_def)
  have "UploadFile w bucketName objectPath objectContentType localPath predefinedACL parallelUploadThreshold
           = (case singleUpload w bucketName objectPath objectContentType localPath predefinedACL isBucketVersioned of
                (r, tr) \<Rightarrow> (r, [BucketsGet bucketName, Stat localPath, Stderr (LogParallel False 0)] @ tr))"
    if h: "getBucketVersioning w bucketName = Inr isBucketVersioned" "osStat w localPath = Inr 0"
         "0 < parallelUploadThreshold" "parallelUploadThreshold < 2 ^ 43"
  proof -
    have "0 < goShl parallelUploadThreshold 20" using h(3,4) by (simp add: goShl_20)
    then have "planParallelUpload 0 (goShl parallelUploadThreshold 20) = Inr ((0, goShl parallelUploadThreshold 20), [])"
      by (rule plan)
    then show ?thesis
      using h by (simp add: UploadFile_def)
  qed
  then show ?thesis using plan [OF assms] by blast
qed

text \<open>Witness for C6: the empty file of \<open>quietWorld\<close> with the default 150 MiB.\<close>

theorem planParallelUpload_empty_file_witness:
  "(0::int) < 157286400
   \<and> planParallelUpload 0 157286400 = Inr ((0, 157286400), [])
   \<and> UploadFile quietWorld ''bucket'' ''folder/file.tgz'' ''application/gzip'' ''/tmp/file.tgz'' [] 150
       = (Inr (1700000000000001, None),
          [BucketsGet ''bucket'', Stat ''/tmp/file.tgz'', Stderr (LogParallel False 0), Open ''/tmp/file.tgz'',
           InsertDo \<lparr>icBucket = ''bucket'', icName = ''folder/file.tgz'', icContentType = ''application/gzip'',
             icMedia = [], icMediaOptions = [''application/gzip''], icPredefinedAcl = None\<rparr>])"
  using planParallelUpload_empty_file [of 157286400 quietWorld "''bucket''" True "''/tmp/file.tgz''" 150 "''folder/file.tgz''" "''application/gzip''" "[]"]
  by (simp add: quietWorld_def getBucketVersioning_def singleUpload_def mediaOptionsFor_def aclFor_def)

text \<open>Counterexample to C6 as stated: the plan for an empty file has 0 threads.\<close>

theorem planParallelUpload_empty_file_counterexample:
  "planParallelUpload 0 (goShl 150 20) = Inr ((0, 157286400), [])"
  by (simp add: planParallelUpload_def plannedThreads_def goQuo_def goRem_def goShl_def int64_def)

text \<open>
  C7.  For a positive file size and a positive threshold the thread count before the
  cap is \<open>ceil(fileSize / threshold)\<close>, and it is the plan's thread count, with the
  threshold as chunk size, when it does not exceed 32.  For 500 MiB and 150 MiB the plan
  is 4 threads of 150 MiB, and the last reader is left with 50 MiB.
\<close>

theorem plannedThreads_ceiling:
  assumes "0 < fileSize" "inInt64 fileSize" "0 < trunkSize"
  shows "plannedThreads fileSize trunkSize = \<lceil>real_of_int fileSize / real_of_int trunkSize\<rceil>
    \<and> (\<lceil>real_of_int fileSize / real_of_int trunkSize\<rceil> \<le> 32 \<longrightarrow>
          planParallelUpload fileSize trunkSize
            = Inr ((\<lceil>real_of_int fileSize / real_of_int trunkSize\<rceil>, trunkSize), []))
    \<and> planParallelUpload (500 * 2 ^ 20) (goShl 150 20) = Inr ((4, 150 * 2 ^ 20), [])
    \<and> (length localFile = 500 * 2 ^ 20 \<longrightarrow>
          length (chunkReader 4 (150 * 2 ^ 20) 3 localFile) = 50 * 2 ^ 20)"
proof -
  have "planParallelUpload (500 * 2 ^ 20) (goShl 150 20) = Inr ((4, 150 * 2 ^ 20), [])"
    by (simp add: planParallelUpload_def plannedThreads_def goQuo_def goRem_def goShl_def int64_def)
  moreover have "length localFile = 500 * 2 ^ 20 \<longrightarrow>
          length (chunkReader 4 (150 * 2 ^ 20) 3 localFile) = 50 * 2 ^ 20"
    by (simp add: chunkReader_def seekStart_def int64_def)
  ultimately show ?thesis
    using assms by (simp add: plannedThreads_nonneg planParallelUpload_pos)
qed

text \<open>Witness for C7: 500 MiB against 150 MiB.\<close>

theorem plannedThreads_ceiling_witness:
  "(0::int) < 524288000 \<and> inInt64 524288000 \<and> (0::int) < 157286400
   \<and> plannedThreads 524288000 157286400 = 4
   \<and> planParallelUpload 524288000 157286400 = Inr ((4, 157286400), [])
   \<and> length (chunkReader 4 157286400 3 (replicate 524288000 0)) = 52428800"
  using plannedThreads_ceiling [of 524288000 157286400 "replicate 524288000 0"]
  by (simp add: inInt64_def)

section \<open>Claims about the multi-part upload\<close>

text \<open>
  C8.  In a multi-part upload in which every chunk upload succeeds, whatever the order
  in which the goroutines report, the trace holds exactly one compose request, and its
  source objects are \<open>objectPath.part0\<close>, ..., \<open>objectPath.part(threads - 1)\<close> in chunk
  order.
\<close>

theorem UploadFile_compose_in_plan_order:
  assumes "getBucketVersioning w bucketName = Inr isBucketVersioned"
    and "osStat w localPath = Inr fileSize"
    and "0 < parallelUploadThreshold"
    and "planParallelUpload fileSize (goShl parallelUploadThreshold 20) = Inr ((threads, trunkSize), warn)"
    and "1 < threads"
    and "\<forall>i<nat threads. osOpen w localPath i = Inr localFile"
    and "\<forall>i<nat threads. workerErr w (chunkInsert bucketName objectPath objectContentType
               predefinedACL threads trunkSize i localFile) = None"
    and "distinct (arrival w)" and "set (arrival w) = {0..<nat threads}"
  shows "filter isCompose
           (snd (UploadFile w bucketName objectPath objectContentType localPath predefinedACL
                   parallelUploadThreshold))
         = [ComposeDo bucketName objectPath (map (partName objectPath) [0..<nat threads])]"
  by (simp add: UploadFile_parallel [OF assms(1-5)] parallelUpload_all_ok [OF assms(6-9)]
        fanTrace_filters cleanup_no_compose comp_def split: option.split)

text \<open>Witness for C8: in \<open>twoPartWorld\<close> chunk 1 reports before chunk 0.\<close>

theorem UploadFile_compose_in_plan_order_witness:
  "distinct (arrival twoPartWorld) \<and> set (arrival twoPartWorld) = {0..<nat 2}
   \<and> planParallelUpload 1048577 (goShl 1 20) = Inr ((2, 1048576), [])
   \<and> filter isCompose
           (snd (UploadFile twoPartWorld ''bucket'' ''folder/file.tgz'' ''application/gzip''
                   ''/tmp/file.tgz'' [] 1))
         = [ComposeDo ''bucket'' ''folder/file.tgz'' [''folder/file.tgz.part0'', ''folder/file.tgz.part1'']]"
proof -
  have h1: "getBucketVersioning twoPartWorld ''bucket'' = Inr True"
    by (simp add: twoPartWorld_def getBucketVersioning_def)
  have h2: "osStat twoPartWorld ''/tmp/file.tgz'' = Inr 1048577"
    by (simp add: twoPartWorld_def)
  have h3: "(0::int) < 1" by simp
  have h4: "planParallelUpload 1048577 (goShl 1 20) = Inr ((2, 1048576), [])"
    by (simp add: planParallelUpload_def plannedThreads_def goQuo_def goRem_def goShl_def int64_def)
  have h5: "(1::int) < 2" by simp
  have h6: "\<forall>i<nat 2. osOpen twoPartWorld ''/tmp/file.tgz'' i = Inr (replicate 1048577 0)"
    by (simp add: twoPartWorld_def)
  have h7: "\<forall>i<nat 2. workerErr twoPartWorld (chunkInsert ''bucket'' ''folder/file.tgz''
              ''application/gzip'' [] 2 1048576 i (replicate 1048577 0)) = None"
    by (simp add: twoPartWorld_def workerErr_def)
  have h8: "distinct (arrival twoPartWorld)"
    by (simp add: twoPartWorld_def)
  have h9: "set (arrival twoPartWorld) = {0..<nat 2}"
    by (auto simp add: twoPartWorld_def)
  have names: "map (partName ''folder/file.tgz'') [0..<nat 2]
                 = [''folder/file.tgz.part0'', ''folder/file.tgz.part1'']"
    by (simp add: partName_def itoa_def natDigits.simps upt_rec)
  show ?thesis
    using UploadFile_compose_in_plan_order [OF h1 h2 h3 h4 h5 h6 h7 h8 h9] h4 h8 h9 by (simp only: names simp_thms)
qed

text \<open>
  C9.  After a compose request that succeeds, the rest of the trace is the cleanup loop:
  one delete request per part, in chunk order, whatever the store answers to each; a
  delete that fails adds a warning on stderr and nothing else, and \<open>UploadFile\<close> returns
  generation 0 with a nil error.
\<close>

theorem UploadFile_cleanup:
  assumes "getBucketVersioning w bucketName = Inr isBucketVersioned"
    and "osStat w localPath = Inr fileSize"
    and "0 < parallelUploadThreshold"
    and "planParallelUpload fileSize (goShl parallelUploadThreshold 20) = Inr ((threads, trunkSize), warn)"
    and "1 < threads"
    and "\<forall>i<nat threads. osOpen w localPath i = Inr localFile"
    and "\<forall>i<nat threads. workerErr w (chunkInsert bucketName objectPath objectContentType
               predefinedACL threads trunkSize i localFile) = None"
    and "distinct (arrival w)" and "set (arrival w) = {0..<nat threads}"
    and "composeDo w bucketName objectPath (map (partName objectPath) [0..<nat threads]) = None"
  shows "fst (UploadFile w bucketName objectPath objectContentType localPath predefinedACL
                parallelUploadThreshold) = Inr (0, None)
       \<and> dropWhile (\<lambda>ev. \<not> isCompose ev)
            (snd (UploadFile w bucketName objectPath objectContentType localPath predefinedACL
                    parallelUploadThreshold))
           = ComposeDo bucketName objectPath (map (partName objectPath) [0..<nat threads])
               # Stderr LogCleanup # cleanup w bucketName objectPath [0..<nat threads]
       \<and> filter isDelete (cleanup w bucketName objectPath [0..<nat threads])
           = map (\<lambda>i. DeleteDo bucketName (partName objectPath i)) [0..<nat threads]
       \<and> filter isWarnDelete (cleanup w bucketName objectPath [0..<nat threads])
           = concat (map (\<lambda>i. case deleteDo w bucketName (partName objectPath i) of
                                  Some e \<Rightarrow> [Stderr (WarnDelete (partName objectPath i) e)]
                                | None \<Rightarrow> []) [0..<nat threads])"
proof -
  let ?mk = "chunkInsert bucketName objectPath objectContentType predefinedACL threads trunkSize"
  let ?pre = "[BucketsGet bucketName, Stat localPath] @ map Stderr warn
               @ [Stderr (LogParallel False threads)]
               @ fanTrace localPath ?mk localFile (nat threads)
               @ replicate (nat threads) (Recv None) @ [Stderr LogCompose]"
  let ?rest = "ComposeDo bucketName objectPath (map (partName objectPath) [0..<nat threads])
               # Stderr LogCleanup # cleanup w bucketName objectPath [0..<nat threads]"
  have up: "UploadFile w bucketName objectPath objectContentType localPath predefinedACL
                parallelUploadThreshold = (Inr (0, None), ?pre @ ?rest)"
    by (simp add: UploadFile_parallel [OF assms(1-5)] parallelUpload_all_ok [OF assms(6-9)] assms(10))
  have "dropWhile (\<lambda>ev. \<not> isCompose ev) (?pre @ ?rest) = dropWhile (\<lambda>ev. \<not> isCompose ev) ?rest"
    using pre_no_compose by (intro dropWhile_append2) blast
  then have "dropWhile (\<lambda>ev. \<not> isCompose ev) (?pre @ ?rest) = ?rest" by simp
  then show ?thesis
    unfolding up by (simp only: fst_conv snd_conv cleanup_deletes cleanup_warnings simp_thms)
qed

text \<open>Witness for C9: in \<open>twoPartWorld\<close> the first delete fails, the second is still issued.\<close>

theorem UploadFile_cleanup_witness:
  "composeDo twoPartWorld ''bucket'' ''folder/file.tgz'' (map (partName ''folder/file.tgz'') [0..<nat 2]) = None
   \<and> deleteDo twoPartWorld ''bucket'' ''folder/file.tgz.part0'' = Some (Err ''delete failed'')
   \<and> fst (UploadFile twoPartWorld ''bucket'' ''folder/file.tgz'' ''application/gzip'' ''/tmp/file.tgz'' [] 1)
       = Inr (0, None)
   \<and> dropWhile (\<lambda>ev. \<not> isCompose ev)
        (snd (UploadFile twoPartWorld ''bucket'' ''folder/file.tgz'' ''application/gzip'' ''/tmp/file.tgz'' [] 1))
       = [ComposeDo ''bucket'' ''folder/file.tgz'' [''folder/file.tgz.part0'', ''folder/file.tgz.part1''],
          Stderr LogCleanup,
          DeleteDo ''bucket'' ''folder/file.tgz.part0'',
          Stderr (WarnDelete ''folder/file.tgz.part0'' (Err ''delete failed'')),
          DeleteDo ''bucket'' ''folder/file.tgz.part1'']"
proof -
  have pos: "(0::int) < 1" and par: "(1::int) < 2" by simp_all
  have h10: "composeDo twoPartWorld ''bucket'' ''folder/file.tgz''
               (map (partName ''folder/file.tgz'') [0..<nat 2]) = None"
    by (simp add: twoPartWorld_def)
  have del: "deleteDo twoPartWorld ''bucket'' ''folder/file.tgz.part0'' = Some (Err ''delete failed'')"
            "deleteDo twoPartWorld ''bucket'' ''folder/file.tgz.part1'' = None"
    by (simp_all add: twoPartWorld_def)
  have parts: "partName ''folder/file.tgz'' 0 = ''folder/file.tgz.part0''"
     "partName ''folder/file.tgz'' (Suc 0) = ''folder/file.tgz.part1''"
    by (simp_all add: partName_def itoa_def natDigits.simps)
  have cl: "cleanup twoPartWorld ''bucket'' ''folder/file.tgz'' [0..<nat 2]
          = [DeleteDo ''bucket'' ''folder/file.tgz.part0'',
          Stderr (WarnDelete ''folder/file.tgz.part0'' (Err ''delete failed'')),
          DeleteDo ''bucket'' ''folder/file.tgz.part1'']"
    by (simp add: upt_rec parts del)
  show ?thesis
    using UploadFile_cleanup [OF twoPart_basics(1,2) pos twoPart_plan par twoPart_basics(3) twoPart_uploads
                     twoPart_arrival(1,2) h10] h10 del(1)
    by (simp only: twoPart_names cl simp_thms)
qed

text \<open>
  C1, as amended.  In a multi-part upload in which the goroutines of \<open>before\<close> report
  success and then the goroutine of chunk \<open>k\<close> reports the error \<open>e\<close>, \<open>UploadFile\<close>
  returns generation 0 and \<open>e\<close> straight after that receive: it has received
  \<open>length before + 1\<close> results, the results of the chunks in \<open>later\<close> are not waited
  for, and no compose or delete request is issued.
\<close>

theorem UploadFile_first_error:
  assumes "getBucketVersioning w bucketName = Inr isBucketVersioned"
    and "osStat w localPath = Inr fileSize"
    and "0 < parallelUploadThreshold"
    and "planParallelUpload fileSize (goShl parallelUploadThreshold 20) = Inr ((threads, trunkSize), warn)"
    and "1 < threads"
    and "\<forall>i<nat threads. osOpen w localPath i = Inr localFile"
    and "distinct (arrival w)" and "set (arrival w) = {0..<nat threads}"
    and "arrival w = before @ k # later"
    and "\<forall>j\<in>set before. workerErr w (chunkInsert bucketName objectPath objectContentType
               predefinedACL threads trunkSize j localFile) = None"
    and "workerErr w (chunkInsert bucketName objectPath objectContentType
               predefinedACL threads trunkSize k localFile) = Some e"
  shows "fst (UploadFile w bucketName objectPath objectContentType localPath predefinedACL
                parallelUploadThreshold) = Inr (0, Some e)
       \<and> filter isRecv (snd (UploadFile w bucketName objectPath objectContentType localPath
                                predefinedACL parallelUploadThreshold))
           = replicate (length before) (Recv None) @ [Recv (Some e)]
       \<and> last (snd (UploadFile w bucketName objectPath objectContentType localPath
                        predefinedACL parallelUploadThreshold)) = Recv (Some e)
       \<and> filter isCompose (snd (UploadFile w bucketName objectPath objectContentType localPath
                                   predefinedACL parallelUploadThreshold)) = []
       \<and> filter isDelete (snd (UploadFile w bucketName objectPath objectContentType localPath
                                  predefinedACL parallelUploadThreshold)) = []"
  by (simp add: UploadFile_parallel [OF assms(1-5)] parallelUpload_first_failure [OF assms(6-11)]
        fanTrace_filters comp_def)

text \<open>Witness for C1: in \<open>failWorld\<close> chunk 1 fails and reports first.\<close>

theorem UploadFile_first_error_witness:
  "planParallelUpload 1048577 (goShl 1 20) = Inr ((2, 1048576), [])
   \<and> arrival failWorld = [] @ 1 # [0]
   \<and> workerErr failWorld (chunkInsert ''bucket'' ''folder/file.tgz''
              ''application/gzip'' [] 2 1048576 1 (replicate 1048577 0)) = Some (Err ''upload failed'')
   \<and> fst (UploadFile failWorld ''bucket'' ''folder/file.tgz'' ''application/gzip'' ''/tmp/file.tgz'' [] 1)
       = Inr (0, Some (Err ''upload failed''))
   \<and> filter isRecv (snd (UploadFile failWorld ''bucket'' ''folder/file.tgz'' ''application/gzip''
                             ''/tmp/file.tgz'' [] 1)) = [Recv (Some (Err ''upload failed''))]
   \<and> filter isCompose (snd (UploadFile failWorld ''bucket'' ''folder/file.tgz'' ''application/gzip''
                             ''/tmp/file.tgz'' [] 1)) = []"
proof -
  have pos: "(0::int) < 1" and par: "(1::int) < 2" by simp_all
  have order: "arrival failWorld = [] @ 1 # [0]"
    by (simp add: twoPartWorld_def failWorld_def)
  have before: "\<forall>j\<in>set []. workerErr failWorld (chunkInsert ''bucket'' ''folder/file.tgz''
              ''application/gzip'' [] 2 1048576 j (replicate 1048577 0)) = None"
    by simp
  show ?thesis
    using UploadFile_first_error [OF twoPart_basics(4,5) pos twoPart_plan par twoPart_basics(6)
                     twoPart_arrival(3,4) order before failWorld_upload]
      twoPart_plan order failWorld_upload
    by simp
qed

text \<open>
  Counterexample to C1 as stated: in \<open>failWorld\<close> two goroutines are started, and
  \<open>UploadFile\<close> returns after a single receive; the result of chunk 0 is never drained.
\<close>

theorem UploadFile_first_error_counterexample:
  "length (goCalls (snd (UploadFile failWorld ''bucket'' ''folder/file.tgz'' ''application/gzip''
                           ''/tmp/file.tgz'' [] 1))) = 2
   \<and> filter isRecv (snd (UploadFile failWorld ''bucket'' ''folder/file.tgz'' ''application/gzip''
                             ''/tmp/file.tgz'' [] 1)) = [Recv (Some (Err ''upload failed''))]"
proof -
  have pos: "(0::int) < 1" and par: "(1::int) < 2" by simp_all
  have order: "arrival failWorld = [] @ 1 # [0]"
    by (simp add: twoPartWorld_def failWorld_def)
  have before: "\<forall>j\<in>set []. workerErr failWorld (chunkInsert ''bucket'' ''folder/file.tgz''
              ''application/gzip'' [] 2 1048576 j (replicate 1048577 0)) = None"
    by simp
  have up: "UploadFile failWorld ''bucket'' ''folder/file.tgz'' ''application/gzip'' ''/tmp/file.tgz'' [] 1
     = (case parallelUpload failWorld ''bucket'' ''folder/file.tgz'' ''application/gzip''
               ''/tmp/file.tgz'' [] 2 1048576 of
         (r, tr) \<Rightarrow>
           (r, [BucketsGet ''bucket'', Stat ''/tmp/file.tgz''] @ map Stderr []
                 @ [Stderr (LogParallel False 2)] @ tr))"
    using twoPart_basics(4,5) pos twoPart_plan par by (rule UploadFile_parallel)
  have calls: "length (goCalls (snd (parallelUpload failWorld ''bucket'' ''folder/file.tgz''
                  ''application/gzip'' ''/tmp/file.tgz'' [] 2 1048576))) = 2"
    by (simp add: parallelUpload_goCalls [OF twoPart_basics(6)])
  have recvs: "parallelUpload failWorld ''bucket'' ''folder/file.tgz''
                  ''application/gzip'' ''/tmp/file.tgz'' [] 2 1048576
       = (Inr (0, Some (Err ''upload failed'')),
          fanTrace ''/tmp/file.tgz'' (chunkInsert ''bucket'' ''folder/file.tgz'' ''application/gzip'' [] 2 1048576)
             (replicate 1048577 0) (nat 2)
           @ replicate (length ([]::nat list)) (Recv None) @ [Recv (Some (Err ''upload failed''))])"
    using twoPart_basics(6) twoPart_arrival(3,4) order before failWorld_upload
    by (rule parallelUpload_first_failure)
  have "filter isRecv (snd (UploadFile failWorld ''bucket'' ''folder/file.tgz'' ''application/gzip''
                             ''/tmp/file.tgz'' [] 1)) = [Recv (Some (Err ''upload failed''))]"
    unfolding up recvs by (simp add: fanTrace_filters)
  moreover have "length (goCalls (snd (UploadFile failWorld ''bucket'' ''folder/file.tgz''
                  ''application/gzip'' ''/tmp/file.tgz'' [] 1))) = 2"
    using calls unfolding up by (simp add: split_beta)
  ultimately show ?thesis by simp
qed

text \<open>
  C3.  In a multi-part upload of a file whose size is the one \<open>os.Stat\<close> reported, the
  readers handed to the goroutines are, in chunk order, the bytes
  \<open>[i * trunkSize, (i + 1) * trunkSize)\<close> for every chunk but the last and the bytes from
  \<open>(threads - 1) * trunkSize\<close> to the end of the file for the last; those ranges lie
  inside the file, and their concatenation is the file: every byte is read exactly once.
\<close>

theorem UploadFile_chunks_partition:
  assumes "getBucketVersioning w bucketName = Inr isBucketVersioned"
    and "osStat w localPath = Inr (int (length localFile))"
    and "inInt64 (int (length localFile))"
    and "0 < parallelUploadThreshold"
    and "planParallelUpload (int (length localFile)) (goShl parallelUploadThreshold 20)
           = Inr ((threads, trunkSize), warn)"
    and "1 < threads"
    and "\<forall>i<nat threads. osOpen w localPath i = Inr localFile"
  shows "map icMedia (goCalls (snd (UploadFile w bucketName objectPath objectContentType localPath
                                      predefinedACL parallelUploadThreshold)))
           = map (\<lambda>i. if int i < threads - 1
                       then take (nat trunkSize) (drop (i * nat trunkSize) localFile)
                       else drop (i * nat trunkSize) localFile) [0..<nat threads]
         \<and> concat (map icMedia (goCalls (snd (UploadFile w bucketName objectPath objectContentType
                                      localPath predefinedACL parallelUploadThreshold)))) = localFile
         \<and> 0 < trunkSize \<and> (threads - 1) * trunkSize \<le> int (length localFile)"
proof -
  let ?tr = "snd (UploadFile w bucketName objectPath objectContentType localPath
                                      predefinedACL parallelUploadThreshold)"
  let ?mk = "chunkInsert bucketName objectPath objectContentType predefinedACL threads trunkSize"
  have b: "0 < trunkSize" "(threads - 1) * trunkSize \<le> int (length localFile)"
    using plan_parallel_bounds [OF _ assms(3) assms(5,6)] by simp_all
  have "goCalls ?tr = map (\<lambda>i. ?mk i localFile) [0..<nat threads]"
    by (simp add: UploadFile_parallel [OF assms(1,2,4,5,6)] parallelUpload_goCalls [OF assms(7)]
          goCalls_append goCalls_Stderr split_beta)
  then have "map icMedia (goCalls ?tr)
               = map (\<lambda>i. chunkReader threads trunkSize i localFile) [0..<nat threads]"
    by (simp add: chunkInsert_def comp_def)
  also have "\<dots> = map (\<lambda>i. if int i < threads - 1
                       then take (nat trunkSize) (drop (i * nat trunkSize) localFile)
                       else drop (i * nat trunkSize) localFile) [0..<nat threads]"
    using b assms(3,6) by (intro map_cong refl chunkReader_ranges) simp_all
  finally have media: "map icMedia (goCalls ?tr)
           = map (\<lambda>i. if int i < threads - 1
                       then take (nat trunkSize) (drop (i * nat trunkSize) localFile)
                       else drop (i * nat trunkSize) localFile) [0..<nat threads]" .
  have "(\<lambda>i. if int i < threads - 1
                       then take (nat trunkSize) (drop (i * nat trunkSize) localFile)
                       else drop (i * nat trunkSize) localFile)
        = (\<lambda>i. if i < nat threads - 1
                       then take (nat trunkSize) (drop (i * nat trunkSize) localFile)
                       else drop (i * nat trunkSize) localFile)"
    using assms(6) by (intro ext) auto
  then have "concat (map icMedia (goCalls ?tr)) = localFile"
    using chunks_partition [of "nat threads" "nat trunkSize" localFile] assms(6)
    by (simp add: media)
  then show ?thesis using media b by blast
qed

text \<open>Witness for C3: 1 MiB + 1 byte in chunks of 1 MiB.\<close>

theorem UploadFile_chunks_partition_witness:
  "inInt64 (int (length (replicate 1048577 (0::byte))))
   \<and> planParallelUpload (int (length (replicate 1048577 (0::byte)))) (goShl 1 20) = Inr ((2, 1048576), [])
   \<and> map icMedia (goCalls (snd (UploadFile twoPartWorld ''bucket'' ''folder/file.tgz'' ''application/gzip''
                                   ''/tmp/file.tgz'' [] 1)))
       = [replicate 1048576 0, replicate 1 0]
   \<and> concat (map icMedia (goCalls (snd (UploadFile twoPartWorld ''bucket'' ''folder/file.tgz''
                                   ''application/gzip'' ''/tmp/file.tgz'' [] 1))))
       = replicate 1048577 0"
proof -
  have pos: "(0::int) < 1" and par: "(1::int) < 2" by simp_all
  have h2: "osStat twoPartWorld ''/tmp/file.tgz'' = Inr (int (length (replicate 1048577 (0::byte))))"
    by (simp add: twoPartWorld_def)
  have h3: "inInt64 (int (length (replicate 1048577 (0::byte))))"
    by (simp add: inInt64_def)
  have h5: "planParallelUpload (int (length (replicate 1048577 (0::byte)))) (goShl 1 20)
              = Inr ((2, 1048576), [])"
    using twoPart_plan by simp
  note plan = UploadFile_chunks_partition [where objectPath = "''folder/file.tgz''" and objectContentType = "''application/gzip''"
                         and predefinedACL = "[]",
                       OF twoPart_basics(1) h2 h3 pos h5 par twoPart_basics(3)]
  have ranges: "map (\<lambda>i. if int i < 2 - 1
                       then take (nat 1048576) (drop (i * nat 1048576) (replicate 1048577 (0::byte)))
                       else drop (i * nat 1048576) (replicate 1048577 0)) [0..<nat 2]
                 = [replicate 1048576 0, replicate 1 0]"
    by (simp add: upt_rec)
  have chunks: "map icMedia (goCalls (snd (UploadFile twoPartWorld ''bucket'' ''folder/file.tgz''
                  ''application/gzip'' ''/tmp/file.tgz'' [] 1)))
       = [replicate 1048576 0, replicate 1 0]"
    using plan unfolding ranges by (rule conjunct1)
  have whole: "concat (map icMedia (goCalls (snd (UploadFile twoPartWorld ''bucket'' ''folder/file.tgz''
                                   ''application/gzip'' ''/tmp/file.tgz'' [] 1))))
       = replicate 1048577 0"
    using plan by (elim conjE)
  show ?thesis
    using h3 h5 chunks whole by (intro conjI)
qed

text \<open>
  C10.  A multi-part upload that runs to its end (every goroutine gets to send) returns
  generation 0, whatever the bucket's versioning and whatever generations the store
  assigned.  The single-part upload returns the generation of the uploaded object when
  the bucket is versioned, and 0 when it is not.
\<close>

theorem UploadFile_generation:
  assumes "getBucketVersioning w bucketName = Inr isBucketVersioned"
    and "osStat w localPath = Inr fileSize"
  shows "(0 < parallelUploadThreshold \<longrightarrow>
          planParallelUpload fileSize (goShl parallelUploadThreshold 20) = Inr ((threads, trunkSize), warn) \<longrightarrow>
          1 < threads \<longrightarrow> distinct (arrival w) \<longrightarrow> set (arrival w) = {0..<nat threads} \<longrightarrow>
          (\<exists>e. fst (UploadFile w bucketName objectPath objectContentType localPath predefinedACL
                       parallelUploadThreshold) = Inr (0, e)))
       \<and> ((if 0 < threshold' then planParallelUpload fileSize (goShl threshold' 20)
            else Inr ((1, goShl threshold' 20), [])) = Inr ((threads', trunkSize'), warn') \<longrightarrow>
          threads' \<le> 1 \<longrightarrow> osOpen w localPath 0 = Inr localFile \<longrightarrow>
          insertDo w \<lparr>icBucket = bucketName, icName = objectPath, icContentType = objectContentType,
                      icMedia = localFile, icMediaOptions = mediaOptionsFor objectContentType,
                      icPredefinedAcl = aclFor predefinedACL\<rparr> = Inr generation \<longrightarrow>
          fst (UploadFile w bucketName objectPath objectContentType localPath predefinedACL threshold')
            = Inr (if isBucketVersioned then generation else 0, None))"
proof (intro conjI impI)
  assume h: "0 < parallelUploadThreshold"
    "planParallelUpload fileSize (goShl parallelUploadThreshold 20) = Inr ((threads, trunkSize), warn)"
    "1 < threads" "distinct (arrival w)" "set (arrival w) = {0..<nat threads}"
  obtain e tr where "parallelUpload w bucketName objectPath objectContentType localPath predefinedACL
                   threads trunkSize = (Inr (0, e), tr)"
    using parallelUpload_generation_zero [OF h(4,5)] by blast
  then show "\<exists>e. fst (UploadFile w bucketName objectPath objectContentType localPath predefinedACL
                       parallelUploadThreshold) = Inr (0, e)"
    by (simp add: UploadFile_parallel [OF assms h(1-3)])
next
  assume h: "(if 0 < threshold' then planParallelUpload fileSize (goShl threshold' 20)
            else Inr ((1, goShl threshold' 20), [])) = Inr ((threads', trunkSize'), warn')"
    "threads' \<le> 1" "osOpen w localPath 0 = Inr localFile"
    "insertDo w \<lparr>icBucket = bucketName, icName = objectPath, icContentType = objectContentType,
                      icMedia = localFile, icMediaOptions = mediaOptionsFor objectContentType,
                      icPredefinedAcl = aclFor predefinedACL\<rparr> = Inr generation"
  show "fst (UploadFile w bucketName objectPath objectContentType localPath predefinedACL threshold')
            = Inr (if isBucketVersioned then generation else 0, None)"
    using assms h by (simp add: UploadFile_def singleUpload_def)
qed

text \<open>
  Witness for C10: \<open>twoPartWorld\<close> is versioned and its store assigns generation
  1700000000000001; with a threshold of 1 MiB the upload is multi-part, with a negative
  threshold it is single-part.
\<close>

theorem UploadFile_generation_witness:
  "planParallelUpload 1048577 (goShl 1 20) = Inr ((2, 1048576), [])
   \<and> insertDo twoPartWorld \<lparr>icBucket = ''bucket'', icName = ''folder/file.tgz'',
         icContentType = ''application/gzip'', icMedia = replicate 1048577 0,
         icMediaOptions = mediaOptionsFor ''application/gzip'', icPredefinedAcl = aclFor []\<rparr>
       = Inr 1700000000000001
   \<and> (\<exists>e. fst (UploadFile twoPartWorld ''bucket'' ''folder/file.tgz'' ''application/gzip''
                   ''/tmp/file.tgz'' [] 1) = Inr (0, e))
   \<and> fst (UploadFile twoPartWorld ''bucket'' ''folder/file.tgz'' ''application/gzip''
             ''/tmp/file.tgz'' [] (- 1)) = Inr (1700000000000001, None)"
proof -
  have ins: "insertDo twoPartWorld \<lparr>icBucket = ''bucket'', icName = ''folder/file.tgz'',
         icContentType = ''application/gzip'', icMedia = replicate 1048577 0,
         icMediaOptions = mediaOptionsFor ''application/gzip'', icPredefinedAcl = aclFor []\<rparr>
       = Inr 1700000000000001"
    by (simp add: twoPartWorld_def)
  have op: "osOpen twoPartWorld ''/tmp/file.tgz'' 0 = Inr (replicate 1048577 0)"
    by (simp add: twoPartWorld_def)
  show ?thesis
    using UploadFile_generation [OF twoPart_basics(1,2), of 1 2 1048576 "[]" "''folder/file.tgz''"
                     "''application/gzip''" "[]" "- 1" 1 "goShl (- 1) 20" "[]" "replicate 1048577 0"
                     1700000000000001]
      twoPart_plan twoPart_arrival(1,2) ins op
    by simp
qed

section \<open>Claims about versioned buckets\<close>

text \<open>
  C4.  When the bucket's versioning is off, \<open>ObjectGenerations\<close> returns the error
  "bucket is not versioned" having only queried the bucket (no listing), and
  \<open>DownloadFile\<close> with a generation other than 0 returns the same error having only
  queried the bucket (no object get, no download).
\<close>

theorem unversioned_bucket_refuses_generation:
  assumes "getBucketVersioning w bucketName = Inr False"
  shows "ObjectGenerations w bucketName objectPath
           = Some (([], Some (Err ''bucket is not versioned'')), [BucketsGet bucketName])
       \<and> (generation \<noteq> 0 \<longrightarrow>
            DownloadFile w bucketName objectPath generation localPath
              = (Some (Err ''bucket is not versioned''), [BucketsGet bucketName]))"
  using assms by (simp add: ObjectGenerations_def DownloadFile_def)

text \<open>Witness for C4: generation 12345 of \<open>folder/version\<close> in \<open>unversionedWorld\<close>.\<close>

theorem unversioned_bucket_refuses_generation_witness:
  "getBucketVersioning unversionedWorld ''bucket-name'' = Inr False \<and> (12345::int) \<noteq> 0
   \<and> ObjectGenerations unversionedWorld ''bucket-name'' ''folder/version''
           = Some (([], Some (Err ''bucket is not versioned'')), [BucketsGet ''bucket-name''])
   \<and> DownloadFile unversionedWorld ''bucket-name'' ''folder/version'' 12345 ''/tmp/destination/version''
              = (Some (Err ''bucket is not versioned''), [BucketsGet ''bucket-name''])"
proof -
  have h: "getBucketVersioning unversionedWorld ''bucket-name'' = Inr False"
    by (simp add: unversionedWorld_def quietWorld_def getBucketVersioning_def)
  show ?thesis
    using unversioned_bucket_refuses_generation [OF h, of "''folder/version''" 12345 "''/tmp/destination/version''"] h by simp
qed

section \<open>Claims about version resolution\<close>

text \<open>
  C2.  With no requested version path, \<open>pathToDownload\<close> fails with the "no extractions"
  error when no listed key matches the pattern; when some key matches, it returns a
  listed key that matches and whose version token is greatest: the token of every
  matching key compares less than or equal to it in the order that reads digit runs as
  numbers.  For the three candidates of the specification the result is
  \<open>file-1.5.6-build.100.tgz\<close>, since build 9 is before build 10 and build 10 before
  build 100.
\<close>

theorem pathToDownload_latest:
  shows "((\<forall>path\<in>set noMatches. pattern0 path = None) \<longrightarrow>
            pathToDownload df pattern0 noMatches []
              = Inl (Err ''no extractions could be found - is your regexp correct?''))
       \<and> ((\<exists>path\<in>set bucketObjects. pattern path \<noteq> None) \<longrightarrow>
            (\<exists>path match. pathToDownload df pattern bucketObjects [] = Inr path
               \<and> path \<in> set bucketObjects \<and> pattern path = Some match
               \<and> (\<forall>other\<in>set bucketObjects. \<forall>m. pattern other = Some m \<longrightarrow>
                     compareVersions df m match \<le> 0)))
       \<and> pathToDownload df (capture ''file-'' ''.tgz'')
            [''file-1.5.6-build.10.tgz'', ''file-1.5.6-build.100.tgz'', ''file-1.5.6-build.9.tgz''] []
           = Inr ''file-1.5.6-build.100.tgz''
       \<and> compareVersions df ''1.5.6-build.9'' ''1.5.6-build.10'' < 0
       \<and> compareVersions df ''1.5.6-build.10'' ''1.5.6-build.100'' < 0"
proof (intro conjI impI)
  assume "\<forall>path\<in>set noMatches. pattern0 path = None"
  then have "List.map_filter (Extract pattern0) noMatches = []"
    by (simp add: List.map_filter_def Extract_def filter_empty_conv)
  then show "pathToDownload df pattern0 noMatches []
              = Inl (Err ''no extractions could be found - is your regexp correct?'')"
    by (simp add: pathToDownload_def GetBucketObjectVersions_def sortExtractions_def)
next
  let ?es = "List.map_filter (Extract pattern) bucketObjects"
  let ?sorted = "GetBucketObjectVersions df pattern bucketObjects"
  assume "\<exists>path\<in>set bucketObjects. pattern path \<noteq> None"
  then have "set ?es \<noteq> {}" by (auto simp add: set_map_filter_Extract)
  then have ne: "?sorted \<noteq> []"
    using sortExtractions_props(1) [of df ?es] by (auto simp add: GetBucketObjectVersions_def)
  then have res: "pathToDownload df pattern bucketObjects [] = Inr (Path (last ?sorted))"
    by (simp add: pathToDownload_def Let_def last_conv_nth)
  have "last ?sorted \<in> set ?es"
    using ne last_in_set [of ?sorted] sortExtractions_props(1) [of df ?es]
    by (simp add: GetBucketObjectVersions_def)
  then obtain path match where pm: "last ?sorted = \<lparr>Path = path, VersionNumber = match\<rparr>"
      "path \<in> set bucketObjects" "pattern path = Some match"
    by (auto simp add: set_map_filter_Extract)
  have "compareVersions df m match \<le> 0" if "other \<in> set bucketObjects" "pattern other = Some m" for other m
  proof -
    have "\<lparr>Path = other, VersionNumber = m\<rparr> \<in> set ?sorted"
      using that sortExtractions_props(1) [of df ?es]
      by (auto simp add: GetBucketObjectVersions_def set_map_filter_Extract)
    then have "olderOrEqual df \<lparr>Path = other, VersionNumber = m\<rparr> (last ?sorted)"
      using sortExtractions_props(2) [of df ?es]
      by (intro sorted_last_newest) (simp_all add: GetBucketObjectVersions_def)
    then show ?thesis by (simp add: olderOrEqual_def pm(1))
  qed
  then show "\<exists>path match. pathToDownload df pattern bucketObjects [] = Inr path
               \<and> path \<in> set bucketObjects \<and> pattern path = Some match
               \<and> (\<forall>other\<in>set bucketObjects. \<forall>m. pattern other = Some m \<longrightarrow>
                     compareVersions df m match \<le> 0)"
    using res pm by auto
next
  show "pathToDownload df (capture ''file-'' ''.tgz'')
            [''file-1.5.6-build.10.tgz'', ''file-1.5.6-build.100.tgz'', ''file-1.5.6-build.9.tgz''] []
           = Inr ''file-1.5.6-build.100.tgz''"
    by (simp add: pathToDownload_def GetBucketObjectVersions_def sortExtractions_def List.map_filter_def
       Extract_def capture_def compareVersions_def isDigit_def digitsValue_def compareNat_def compareChar_def)
next
  show "compareVersions df ''1.5.6-build.9'' ''1.5.6-build.10'' < 0"
    by (simp add: compareVersions_def isDigit_def digitsValue_def compareNat_def compareChar_def)
next
  show "compareVersions df ''1.5.6-build.10'' ''1.5.6-build.100'' < 0"
    by (simp add: compareVersions_def isDigit_def digitsValue_def compareNat_def compareChar_def)
qed

text \<open>
  Witness for C2: a listing without a match, and the listing of the test
  "when there is no existing version in the request".
\<close>

theorem pathToDownload_latest_witness:
  "capture ''folder/file-'' ''.tgz'' ''folder/notes.txt'' = None
   \<and> capture ''folder/file-'' ''.tgz'' ''folder/file-2.33.333.tgz'' = Some ''2.33.333''
   \<and> pathToDownload True (capture ''folder/file-'' ''.tgz'') [''folder/notes.txt''] []
       = Inl (Err ''no extractions could be found - is your regexp correct?'')
   \<and> pathToDownload True (capture ''folder/file-'' ''.tgz'')
         [''folder/file-0.0.1.tgz'', ''folder/file-3.53.tgz'', ''folder/file-2.33.333.tgz'',
          ''folder/file-2.4.3.tgz''] [] = Inr ''folder/file-3.53.tgz''
   \<and> compareVersions True ''2.33.333'' ''3.53'' \<le> 0
   \<and> pathToDownload True (capture ''file-'' ''.tgz'')
            [''file-1.5.6-build.10.tgz'', ''file-1.5.6-build.100.tgz'', ''file-1.5.6-build.9.tgz''] []
           = Inr ''file-1.5.6-build.100.tgz''"
proof -
  let ?objs = "[''folder/file-0.0.1.tgz'', ''folder/file-3.53.tgz'', ''folder/file-2.33.333.tgz'',
                     ''folder/file-2.4.3.tgz'']"
  note t = pathToDownload_latest [of "[''folder/notes.txt'']" "capture ''folder/file-'' ''.tgz''" True ?objs
                       "capture ''folder/file-'' ''.tgz''"]
  have n: "capture ''folder/file-'' ''.tgz'' ''folder/notes.txt'' = None"
    by (simp add: capture_def)
  then have none: "\<forall>path\<in>set [''folder/notes.txt'']. capture ''folder/file-'' ''.tgz'' path = None"
    by simp
  have c: "capture ''folder/file-'' ''.tgz'' ''folder/file-2.33.333.tgz'' = Some ''2.33.333''"
    by (simp add: capture_def)
  then have some: "\<exists>path\<in>set ?objs. capture ''folder/file-'' ''.tgz'' path \<noteq> None"
    by simp
  have a: "pathToDownload True (capture ''folder/file-'' ''.tgz'') [''folder/notes.txt''] []
       = Inl (Err ''no extractions could be found - is your regexp correct?'')"
    using t none by blast
  obtain path match where b: "pathToDownload True (capture ''folder/file-'' ''.tgz'') ?objs [] = Inr path"
      "capture ''folder/file-'' ''.tgz'' path = Some match"
      "\<forall>other\<in>set ?objs. \<forall>m. capture ''folder/file-'' ''.tgz'' other = Some m \<longrightarrow>
                     compareVersions True m match \<le> 0"
    using t some by blast
  have newest: "compareVersions True ''2.33.333'' match \<le> 0"
    using b(3) c by simp
  have run: "pathToDownload True (capture ''folder/file-'' ''.tgz'') ?objs [] = Inr ''folder/file-3.53.tgz''"
    by (simp add: pathToDownload_def GetBucketObjectVersions_def sortExtractions_def List.map_filter_def
       Extract_def capture_def compareVersions_def isDigit_def digitsValue_def compareNat_def compareChar_def)
  then have "path = ''folder/file-3.53.tgz''" using b(1) by simp
  then have "match = ''3.53''" using b(2) by (simp add: capture_def)
  then have "compareVersions True ''2.33.333'' ''3.53'' \<le> 0" using newest by simp
  then show ?thesis using t n c a run by blast
qed

end
